theory Spec2Isabelle
  imports Complex_Main "HOL-Library.Multiset" "HOL-Library.Sublist"
begin

section \<open>The guild queue of DisTube (src/struct/Queue.ts, src/struct/Song.ts)\<close>

text \<open>
  A shallow embedding of the \<^verbatim>\<open>Queue\<close> and \<^verbatim>\<open>Song\<close> classes. A method of the class is a
  function from the queue before the call to the outcome of the call and the queue after
  it; a \<^verbatim>\<open>throw\<close> is the outcome \<open>Inl e\<close>, where \<open>e\<close> keeps the JavaScript error class and
  its message. Song objects live in a store and the queue's lists hold references to them,
  as the arrays of the source hold object references.

  A value of the JavaScript type \<^verbatim>\<open>number\<close> that a method of the queue takes or stores
  (\<^verbatim>\<open>num\<close>, \<^verbatim>\<open>position\<close>, \<^verbatim>\<open>mode\<close>, \<^verbatim>\<open>time\<close>, \<^verbatim>\<open>percent\<close>, \<^verbatim>\<open>repeatMode\<close>, \<^verbatim>\<open>beginTime\<close>, \<^verbatim>\<open>volume\<close>) is
  a double: finite, \<^verbatim>\<open>NaN\<close> or an infinity, with the rounding of its arithmetic.
\<close>

subsection \<open>Errors, dynamically checked arguments, collaborator calls\<close>

datatype error =
    Error string
  | SyntaxError string
  | RangeError string
  | TypeError string

subsection \<open>JavaScript numbers\<close>

text \<open>
  A \<^verbatim>\<open>number\<close> is an IEEE 754 double. \<open>Finite x\<close> stands for the double of value \<open>x\<close>; the two
  zeros are one value, which no operation used here tells apart.
\<close>

datatype number = Finite real | NaN | PosInfinity | NegInfinity

text \<open>
  Rounding to the nearest double, ties to the even significand: \<open>ulp x\<close> is the spacing of
  the doubles around \<open>x\<close> (53 significant bits, least exponent \<open>-1022\<close>), and a result of
  magnitude \<open>2 ^ 1024\<close> is an infinity.
\<close>

definition round_half_even :: "real \<Rightarrow> int" where
  "round_half_even y =
     (let f = \<lfloor>y\<rfloor>; d = y - of_int f
      in if d < 1 / 2 then f else if 1 / 2 < d then f + 1 else if even f then f else f + 1)"

definition ulp :: "real \<Rightarrow> real" where
  "ulp x = 2 powr (of_int (max \<lfloor>log 2 \<bar>x\<bar>\<rfloor> (- 1022)) - 52)"

definition fl :: "real \<Rightarrow> number" where
  "fl x =
     (if x = 0 then Finite 0
      else
        (let r = of_int (round_half_even (x / ulp x)) * ulp x
         in if 2 ^ 1024 \<le> \<bar>r\<bar> then (if 0 < r then PosInfinity else NegInfinity)
            else Finite r))"

text \<open>Unary minus, \<^verbatim>\<open>a + b\<close> and \<^verbatim>\<open>a - b\<close>.\<close>

fun js_neg :: "number \<Rightarrow> number" where
  "js_neg (Finite x) = Finite (- x)"
| "js_neg NaN = NaN"
| "js_neg PosInfinity = NegInfinity"
| "js_neg NegInfinity = PosInfinity"

fun js_add :: "number \<Rightarrow> number \<Rightarrow> number" where
  "js_add (Finite x) (Finite y) = fl (x + y)"
| "js_add NaN b = NaN"
| "js_add a NaN = NaN"
| "js_add PosInfinity NegInfinity = NaN"
| "js_add NegInfinity PosInfinity = NaN"
| "js_add PosInfinity b = PosInfinity"
| "js_add a PosInfinity = PosInfinity"
| "js_add NegInfinity b = NegInfinity"
| "js_add a NegInfinity = NegInfinity"

definition js_sub :: "number \<Rightarrow> number \<Rightarrow> number" where
  "js_sub a b = js_add a (js_neg b)"

text \<open>
  The comparisons \<^verbatim>\<open>a < b\<close>, \<^verbatim>\<open>a > b\<close>, \<^verbatim>\<open>a === b\<close> and \<^verbatim>\<open>a <= b\<close>: every comparison with
  \<^verbatim>\<open>NaN\<close> is false.
\<close>

fun js_lt :: "number \<Rightarrow> number \<Rightarrow> bool" where
  "js_lt (Finite x) (Finite y) = (x < y)"
| "js_lt NaN b = False"
| "js_lt a NaN = False"
| "js_lt PosInfinity b = False"
| "js_lt a NegInfinity = False"
| "js_lt NegInfinity b = True"
| "js_lt a PosInfinity = True"

definition js_gt :: "number \<Rightarrow> number \<Rightarrow> bool" where
  "js_gt a b = js_lt b a"

definition js_eq :: "number \<Rightarrow> number \<Rightarrow> bool" where
  "js_eq a b = (a \<noteq> NaN \<and> a = b)"

definition js_le :: "number \<Rightarrow> number \<Rightarrow> bool" where
  "js_le a b = (js_lt a b \<or> js_eq a b)"

text \<open>\<^verbatim>\<open>!a\<close> is false exactly for a number other than 0 and \<^verbatim>\<open>NaN\<close>.\<close>

definition number_truthy :: "number \<Rightarrow> bool" where
  "number_truthy a = (a \<noteq> NaN \<and> a \<noteq> Finite 0)"

text \<open>
  \<^verbatim>\<open>a % b\<close>: the remainder of the truncated division, which has the sign of the dividend and
  is exact.
\<close>

fun js_rem :: "number \<Rightarrow> number \<Rightarrow> number" where
  "js_rem (Finite x) (Finite y) =
     (if y = 0 then NaN else Finite (sgn x * (\<bar>x\<bar> - \<bar>y\<bar> * of_int \<lfloor>\<bar>x\<bar> / \<bar>y\<bar>\<rfloor>)))"
| "js_rem NaN b = NaN"
| "js_rem a NaN = NaN"
| "js_rem PosInfinity b = NaN"
| "js_rem NegInfinity b = NaN"
| "js_rem (Finite x) b = Finite x"

text \<open>\<^verbatim>\<open>a / d\<close> for a finite divisor \<open>d\<close> other than 0 (the source divides by 100 and by 1e3).\<close>

fun js_div_by :: "real \<Rightarrow> number \<Rightarrow> number" where
  "js_div_by d (Finite x) = fl (x / d)"
| "js_div_by d NaN = NaN"
| "js_div_by d PosInfinity = (if 0 < d then PosInfinity else NegInfinity)"
| "js_div_by d NegInfinity = (if 0 < d then NegInfinity else PosInfinity)"

text \<open>
  The length of an array as a number, and the integer part of a finite number (what
  \<^verbatim>\<open>ToIntegerOrInfinity\<close> makes of it).
\<close>

definition array_length :: "'a list \<Rightarrow> number" where
  "array_length xs = Finite (real (length xs))"

definition js_trunc :: "real \<Rightarrow> int" where
  "js_trunc x = (if 0 \<le> x then \<lfloor>x\<rfloor> else \<lceil>x\<rceil>)"

text \<open>
  An argument that the source tests with \<^verbatim>\<open>typeof x !== "number"\<close>: a number, \<^verbatim>\<open>null\<close> (or
  \<^verbatim>\<open>undefined\<close>, an omitted argument), or a value of any other type.
\<close>

datatype 'n arg = Num 'n | Null | NonNumber

text \<open>
  The methods call into collaborators whose code is not part of the class: the audio player,
  the voice connection, the audio resource, the handler and the DisTube instance. A call is
  recorded in the field \<open>calls\<close> of the queue, oldest first; an optional-chaining call
  (\<^verbatim>\<open>this.audioPlayer?.stop()\<close>) is recorded only when the handle is present.
\<close>

datatype call =
    AudioPlayerPause
  | AudioPlayerUnpause
  | AudioPlayerStop
  | ConnectionDestroy
  | ConnectionsDelete string
  | DeleteQueue
  | ResourceSetVolume number
  | HandlerPlaySong

text \<open>
  A song object is named by a reference into the store. The argument of the constructor
  and of \<^verbatim>\<open>addToQueue\<close> is one song or an array of songs.
\<close>

type_synonym ref = nat

datatype song_arg = Single ref | Array "ref list"

subsection \<open>JavaScript values and array primitives\<close>

text \<open>
  The raw info that a \<^verbatim>\<open>Song\<close> is built from is untyped (\<^verbatim>\<open>any\<close>) in the source: a value is
  \<^verbatim>\<open>undefined\<close>, \<^verbatim>\<open>null\<close>, a boolean, a number, a string, an array, or an object given by its
  own properties.
\<close>

datatype jsval =
    Undefined
  | JNull
  | Bool bool
  | Number real
  | Str string
  | Arr "jsval list"
  | Obj "(string \<times> jsval) list"

text \<open>Truthiness, \<^verbatim>\<open>a || b\<close>, a property read \<^verbatim>\<open>v.k\<close> and \<^verbatim>\<open>v?.length\<close>.\<close>

fun truthy :: "jsval \<Rightarrow> bool" where
  "truthy Undefined = False"
| "truthy JNull = False"
| "truthy (Bool b) = b"
| "truthy (Number n) = (n \<noteq> 0)"
| "truthy (Str s) = (s \<noteq> [])"
| "truthy (Arr xs) = True"
| "truthy (Obj kvs) = True"

definition js_or :: "jsval \<Rightarrow> jsval \<Rightarrow> jsval" where
  "js_or a b = (if truthy a then a else b)"

definition nullish :: "jsval \<Rightarrow> bool" where
  "nullish v = (v = Undefined \<or> v = JNull)"

definition js_prop :: "jsval \<Rightarrow> string \<Rightarrow> jsval" where
  "js_prop v k =
     (case v of
        Obj kvs \<Rightarrow> (case map_of kvs k of Some x \<Rightarrow> x | None \<Rightarrow> Undefined)
      | _ \<Rightarrow> Undefined)"

definition js_length :: "jsval \<Rightarrow> jsval" where
  "js_length v =
     (case v of
        Arr xs \<Rightarrow> Number (real (length xs))
      | Str s \<Rightarrow> Number (real (length s))
      | Obj kvs \<Rightarrow> js_prop v ''length''
      | _ \<Rightarrow> Undefined)"

text \<open>\<^verbatim>\<open>String.prototype.toLowerCase\<close> on ASCII letters.\<close>

definition lower_char :: "char \<Rightarrow> char" where
  "lower_char c =
     (let n = (of_char c :: nat) in if 65 \<le> n \<and> n \<le> 90 then char_of (n + 32) else c)"

definition toLowerCase :: "string \<Rightarrow> string" where
  "toLowerCase s = map lower_char s"

text \<open>
  \<^verbatim>\<open>xs[i]\<close> is \<^verbatim>\<open>undefined\<close> (here \<open>None\<close>) outside the array; \<^verbatim>\<open>xs[xs.length - 1]\<close> of an
  empty array reads index \<open>-1\<close>, which is \<^verbatim>\<open>undefined\<close> too.
\<close>

definition nth_opt :: "'a list \<Rightarrow> nat \<Rightarrow> 'a option" where
  "nth_opt xs i = (if i < length xs then Some (xs ! i) else None)"

definition last_opt :: "'a list \<Rightarrow> 'a option" where
  "last_opt xs = (if xs = [] then None else Some (last xs))"

text \<open>
  \<^verbatim>\<open>Array.prototype.splice\<close>. The start is made an integer first: \<^verbatim>\<open>NaN\<close> is 0, a fraction
  loses its fractional part, an infinity stays. A negative start counts from the end, and
  the start is clamped to the array. \<open>splice_from start xs\<close> is \<^verbatim>\<open>xs.splice(start)\<close>: the
  removed tail, which the call returns, and what is left in the array.
  \<open>splice_insert start ys xs\<close> is the array after \<^verbatim>\<open>xs.splice(start, 0, ...ys)\<close>.
\<close>

definition clamp_start :: "int \<Rightarrow> 'a list \<Rightarrow> nat" where
  "clamp_start start xs =
     (let len = int (length xs)
      in nat (if start < 0 then max (len + start) 0 else min start len))"

fun splice_start :: "number \<Rightarrow> 'a list \<Rightarrow> nat" where
  "splice_start (Finite x) xs = clamp_start (js_trunc x) xs"
| "splice_start NaN xs = 0"
| "splice_start PosInfinity xs = length xs"
| "splice_start NegInfinity xs = 0"

definition splice_from :: "number \<Rightarrow> 'a list \<Rightarrow> 'a list \<times> 'a list" where
  "splice_from start xs = (drop (splice_start start xs) xs, take (splice_start start xs) xs)"

definition splice_insert :: "number \<Rightarrow> 'a list \<Rightarrow> 'a list \<Rightarrow> 'a list" where
  "splice_insert start ys xs =
     take (splice_start start xs) xs @ ys @ drop (splice_start start xs) xs"

text \<open>
  The destructuring swap \<^verbatim>\<open>[xs[i], xs[j]] = [xs[j], xs[i]]\<close>: both reads happen before
  the writes. It is used with both indices inside the array (in the shuffle \<open>j \<le> i\<close> and
  \<open>i\<close> is below the length, since a draw of \<^verbatim>\<open>Math.random()\<close> is below 1).
\<close>

definition swap :: "nat \<Rightarrow> nat \<Rightarrow> 'a list \<Rightarrow> 'a list" where
  "swap i j xs = (xs[i := xs ! j])[j := xs ! i]"

subsection \<open>Songs (Song.ts)\<close>

record GuildMember =
  member_id :: string
  member_user :: string

text \<open>
  An entry of \<^verbatim>\<open>song.related\<close>, with the properties that the queue reads from it.
\<close>

record related_song =
  related_id :: jsval
  related_url :: jsval
  instanceof_Song :: bool

text \<open>
  The fields of a song that the constructor writes up to \<^verbatim>\<open>url\<close>, and \<^verbatim>\<open>related\<close>. The optional
  property \<^verbatim>\<open>info\<close> is \<open>None\<close> when the object does not have it. The fields assigned after
  \<^verbatim>\<open>url\<close> (\<^verbatim>\<open>streamURL\<close>, \<^verbatim>\<open>thumbnail\<close>, \<^verbatim>\<open>views\<close>, \<^verbatim>\<open>likes\<close>, \<^verbatim>\<open>dislikes\<close>, \<^verbatim>\<open>uploader\<close>,
  \<^verbatim>\<open>age_restricted\<close>, \<^verbatim>\<open>chapters\<close>, \<^verbatim>\<open>reposts\<close>) are read by no method of the queue and are
  not kept.
\<close>

record song =
  source :: string
  member :: "GuildMember option"
  user :: "string option"
  info :: "jsval option"
  song_id :: jsval
  name :: jsval
  isLive :: bool
  duration :: real
  formattedDuration :: string
  url :: jsval
  related :: "related_song list"

type_synonym store = "ref \<Rightarrow> song"

text \<open>
  What the constructor uses and the source tree does not contain: \<^verbatim>\<open>toSecond\<close> and
  \<^verbatim>\<open>formatDuration\<close> of \<^verbatim>\<open>Util\<close>, \<^verbatim>\<open>playError\<close> of ytdl-core (\<open>None\<close>: it returns no error),
  the string conversion of a template literal, the entries of an untyped \<^verbatim>\<open>related\<close> array,
  and, for a YouTube song, the statements after the assignment of \<^verbatim>\<open>url\<close>
  (\<^verbatim>\<open>chooseFormat\<close>, the sort of the thumbnails, \<^verbatim>\<open>new Song(v)\<close> for every related video),
  which either throw or end with the list of related songs.
\<close>

record helpers =
  toSecond :: "jsval \<Rightarrow> real"
  formatDuration :: "real \<Rightarrow> string"
  playError :: "jsval \<Rightarrow> error option"
  js_string :: "jsval \<Rightarrow> string"
  related_items :: "jsval \<Rightarrow> related_song list"
  youtube_rest :: "jsval \<Rightarrow> error + related_song list"

text \<open>
  \<^verbatim>\<open>_patchYouTube\<close> (Song.ts, lines 66-175). \<^verbatim>\<open>_patchMember\<close> has run before: \<open>m\<close> is the member
  it was given. Reading a property of \<^verbatim>\<open>undefined\<close> or \<^verbatim>\<open>null\<close> throws a \<^verbatim>\<open>TypeError\<close>.
\<close>

definition patchYouTube :: "helpers \<Rightarrow> string \<Rightarrow> GuildMember option \<Rightarrow> jsval \<Rightarrow> error + song" where
  "patchYouTube H src m i =
     (if nullish i then Inl (TypeError ''Cannot read properties of undefined'')
      else
        (case (if js_prop i ''full'' = Bool True
               then (case playError H (js_prop i ''player_response'') of
                       Some err \<Rightarrow> Inl err
                     | None \<Rightarrow>
                         if \<not> truthy (js_length (js_prop i ''formats''))
                         then Inl (Error ''This video is unavailable'')
                         else Inr (Some i))
               else Inr None) of
           Inl e \<Rightarrow> Inl e
         | Inr full_info \<Rightarrow>
             (let details = js_or (js_prop i ''videoDetails'') i;
                  ident = js_or (js_prop details ''videoId'') (js_prop details ''id'');
                  live = truthy (js_prop details ''isLive'');
                  dur = (if live then 0
                         else toSecond H
                                (js_or (js_or (js_prop details ''lengthSeconds'')
                                              (js_prop details ''length_seconds''))
                                       (js_prop details ''duration'')))
              in case youtube_rest H i of
                   Inl e \<Rightarrow> Inl e
                 | Inr rel \<Rightarrow>
                     Inr \<lparr> source = src,
                           member = m,
                           user = map_option member_user m,
                           info = full_info,
                           song_id = ident,
                           name = js_or (js_prop details ''title'') (js_prop details ''name''),
                           isLive = live,
                           duration = dur,
                           formattedDuration = (if live then ''Live'' else formatDuration H dur),
                           url = Str (''https://www.youtube.com/watch?v='' @ js_string H ident),
                           related = rel \<rparr>)))"

text \<open>\<^verbatim>\<open>_patchOther\<close> (Song.ts, lines 182-202).\<close>

definition patchOther :: "helpers \<Rightarrow> string \<Rightarrow> GuildMember option \<Rightarrow> jsval \<Rightarrow> error + song" where
  "patchOther H src m i =
     (if nullish i then Inl (TypeError ''Cannot read properties of undefined'')
      else
        (let live = truthy (js_or (js_prop i ''is_live'') (js_prop i ''isLive''));
             dur = (if live then 0
                    else toSecond H (js_or (js_prop i ''_duration_raw'') (js_prop i ''duration'')))
         in Inr \<lparr> source = src,
                  member = m,
                  user = map_option member_user m,
                  info = None,
                  song_id = (if truthy (js_prop i ''id'') then js_prop i ''id'' else Undefined),
                  name = (if truthy (js_prop i ''title'') then js_prop i ''title''
                          else if truthy (js_prop i ''name'') then js_prop i ''name''
                          else Undefined),
                  isLive = live,
                  duration = dur,
                  formattedDuration = (if live then ''Live'' else formatDuration H dur),
                  url = js_or (js_prop i ''webpage_url'') (js_prop i ''url''),
                  related = related_items H (js_or (js_prop i ''related'') (Arr [])) \<rparr>))"

text \<open>
  The constructor (Song.ts, lines 50-64). An omitted \<^verbatim>\<open>src\<close> (\<^verbatim>\<open>undefined\<close>) is \<^verbatim>\<open>"youtube"\<close>.
\<close>

definition Song :: "helpers \<Rightarrow> jsval \<Rightarrow> GuildMember option \<Rightarrow> jsval \<Rightarrow> error + song" where
  "Song H i m src =
     (case (case src of Undefined \<Rightarrow> Str ''youtube'' | _ \<Rightarrow> src) of
        Str s \<Rightarrow>
          (let lowered = toLowerCase s
           in if lowered = ''youtube'' then patchYouTube H lowered m i
              else patchOther H lowered m i)
      | _ \<Rightarrow> Inl (TypeError ''Source must be a string''))"

subsection \<open>The queue\<close>

record DisTubeOptions =
  savePreviousSongs :: bool
  leaveOnStop :: bool

text \<open>
  \<open>distube_options\<close> is \<^verbatim>\<open>this.distube.options\<close> and \<open>distube_filters\<close> lists the own property
  names of \<^verbatim>\<open>this.distube.filters\<close>.
\<close>

record DisTube =
  distube_options :: DisTubeOptions
  distube_filters :: "string list"

text \<open>
  \<open>playbackDuration\<close> is the resource's playback time, a count of milliseconds; \<open>hasVolume\<close>
  says whether the resource has a volume transformer (\<^verbatim>\<open>audioResource.volume\<close>).
\<close>

record AudioResource =
  playbackDuration :: nat
  hasVolume :: bool

text \<open>
  \<open>options\<close> is \<^verbatim>\<open>this.options\<close>, which the base class \<^verbatim>\<open>DisTubeBase\<close> provides (\<^verbatim>\<open>previous\<close> and
  \<^verbatim>\<open>stop\<close> read it, \<^verbatim>\<open>jump\<close> reads \<^verbatim>\<open>this.distube.options\<close>); \<open>audioPlayer\<close> and \<open>connection\<close>
  say whether the optional handle is set. The fields \<^verbatim>\<open>textChannel\<close>, \<^verbatim>\<open>handler\<close>,
  \<^verbatim>\<open>emptyTimeout\<close> and \<^verbatim>\<open>clientMember\<close> are handles that no method below writes or tests,
  and are left out.
\<close>

record queue =
  queue_id :: string
  distube :: DisTube
  options :: DisTubeOptions
  audioPlayer :: bool
  connection :: bool
  volume :: number
  songs :: "ref list"
  previousSongs :: "ref list"
  stopped :: bool
  next_flag :: bool
  prev :: bool
  playing :: bool
  paused :: bool
  repeatMode :: number
  autoplay :: bool
  filters :: "string list"
  beginTime :: number
  audioResource :: "AudioResource option"
  calls :: "call list"

type_synonym 'r outcome = "(error + 'r) \<times> queue"

definition record_call :: "call \<Rightarrow> queue \<Rightarrow> queue" where
  "record_call c q = q\<lparr>calls := calls q @ [c]\<rparr>"

definition record_call_if :: "bool \<Rightarrow> call \<Rightarrow> queue \<Rightarrow> queue" where
  "record_call_if present c q = (if present then record_call c q else q)"

text \<open>The constructor (Queue.ts, lines 121-226).\<close>

definition Queue :: "DisTube \<Rightarrow> DisTubeOptions \<Rightarrow> string \<Rightarrow> song_arg \<Rightarrow> queue" where
  "Queue d opts guild_id song =
     \<lparr> queue_id = guild_id,
       distube = d,
       options = opts,
       audioPlayer = False,
       connection = False,
       volume = Finite 50,
       songs = (case song of Array ss \<Rightarrow> ss | Single s \<Rightarrow> [s]),
       previousSongs = [],
       stopped = False,
       next_flag = False,
       prev = False,
       playing = True,
       paused = False,
       repeatMode = Finite 0,
       autoplay = False,
       filters = [],
       beginTime = Finite 0,
       audioResource = None,
       calls = [] \<rparr>"

subsection \<open>pause and resume (Queue.ts, lines 286-303)\<close>

definition pause :: "queue \<Rightarrow> unit outcome" where
  "pause q =
     (if paused q then (Inl (Error ''The queue has been paused already.''), q)
      else (Inr (),
            record_call_if (audioPlayer q) AudioPlayerPause
              (q\<lparr>playing := False, paused := True\<rparr>)))"

definition resume :: "queue \<Rightarrow> unit outcome" where
  "resume q =
     (if playing q then (Inl (Error ''The queue has been playing already.''), q)
      else (Inr (),
            record_call_if (audioPlayer q) AudioPlayerUnpause
              (q\<lparr>playing := True, paused := False\<rparr>)))"

subsection \<open>The getter currentTime (Queue.ts, lines 245-247)\<close>

definition currentTime :: "queue \<Rightarrow> number" where
  "currentTime q =
     (case audioResource q of
        Some r \<Rightarrow> js_add (js_div_by 1000 (Finite (real (playbackDuration r)))) (beginTime q)
      | None \<Rightarrow> Finite 0)"

subsection \<open>addToQueue (Queue.ts, lines 269-281)\<close>

text \<open>
  \<open>song = None\<close> is a missing (falsy) argument and \<open>position = None\<close> an omitted position,
  which defaults to \<open>-1\<close>. \<^verbatim>\<open>delete s.info\<close> removes the property from the song object itself,
  so every reference to that object sees it.
\<close>

definition delete_info :: "ref list \<Rightarrow> store \<Rightarrow> store" where
  "delete_info rs h = fold (\<lambda>r h'. h'(r := (h' r)\<lparr>info := None\<rparr>)) rs h"

definition items_of :: "song_arg \<Rightarrow> ref list" where
  "items_of a = (case a of Array ss \<Rightarrow> ss | Single s \<Rightarrow> [s])"

definition position_or_default :: "number option \<Rightarrow> number" where
  "position_or_default pos = (case pos of None \<Rightarrow> Finite (- 1) | Some p \<Rightarrow> p)"

definition addToQueue ::
  "song_arg option \<Rightarrow> number option \<Rightarrow> store \<Rightarrow> queue \<Rightarrow> (error + unit) \<times> store \<times> queue" where
  "addToQueue song pos h q =
     (let position = position_or_default pos in
      case song of
        None \<Rightarrow> (Inl (Error ''No Song provided.''), h, q)
      | Some a \<Rightarrow>
          if (case a of Array ss \<Rightarrow> length ss = 0 | Single s \<Rightarrow> False)
          then (Inl (Error ''No Song provided.''), h, q)
          else if js_eq position (Finite 0)
          then (Inl (SyntaxError ''Cannot add Song before the playing Song.''), h, q)
          else (Inr (),
                delete_info (items_of a) h,
                q\<lparr>songs := (if js_lt position (Finite 0) then songs q @ items_of a
                              else splice_insert position (items_of a) (songs q))\<rparr>))"

subsection \<open>stop, setVolume (Queue.ts, lines 307-326)\<close>

definition stop :: "queue \<Rightarrow> unit outcome" where
  "stop q =
     (let q1 = q\<lparr>stopped := True\<rparr>;
          q2 = record_call_if (audioPlayer q1) AudioPlayerStop q1;
          q3 = (if leaveOnStop (options q2)
                then record_call (ConnectionsDelete (queue_id q2))
                       (record_call_if (connection q2) ConnectionDestroy q2)
                else q2)
      in (Inr (), record_call DeleteQueue q3))"

definition setVolume :: "number arg \<Rightarrow> queue \<Rightarrow> unit outcome" where
  "setVolume percent q =
     (case percent of
        Num p \<Rightarrow>
          (let q1 = q\<lparr>volume := p\<rparr>
           in (Inr (),
               record_call_if
                 (case audioResource q1 of Some r \<Rightarrow> hasVolume r | None \<Rightarrow> False)
                 (ResourceSetVolume (js_div_by 100 (volume q1))) q1))
      | _ \<Rightarrow> (Inl (Error ''Volume percent must be a number.''), q))"

subsection \<open>skip, previous (Queue.ts, lines 333-353)\<close>

text \<open>The result is the song the call returns; \<open>None\<close> is \<^verbatim>\<open>undefined\<close>.\<close>

definition skip :: "queue \<Rightarrow> ref option outcome" where
  "skip q =
     (if length (songs q) \<le> 1 \<and> \<not> autoplay q
      then (Inl (Error ''There is no song to skip.''), q)
      else (Inr (nth_opt (songs q) 1),
            record_call_if (audioPlayer q) AudioPlayerStop (q\<lparr>next_flag := True\<rparr>)))"

definition previous :: "queue \<Rightarrow> ref option outcome" where
  "previous q =
     (if \<not> savePreviousSongs (options q)
      then (Inl (Error ''savePreviousSongs is disabled.''), q)
      else if length (previousSongs q) = 0 \<and> \<not> js_eq (repeatMode q) (Finite 2)
      then (Inl (Error ''There is no previous song.''), q)
      else (Inr (if js_eq (repeatMode q) (Finite 2) then last_opt (songs q)
                 else last_opt (previousSongs q)),
            record_call_if (audioPlayer q) AudioPlayerStop (q\<lparr>prev := True\<rparr>)))"

subsection \<open>shuffle (Queue.ts, lines 358-367)\<close>

text \<open>
  \<open>rand k\<close> is the value of the \<open>k\<close>-th call of \<^verbatim>\<open>Math.random()\<close> during the shuffle, a number
  in \<open>[0, 1)\<close>. The loop runs \<open>i\<close> from \<^verbatim>\<open>songs.length - 1\<close> down to \<open>1\<close>; for an array that is
  empty after the shift it starts at \<open>-1\<close> and does not run, as it does not from \<open>0\<close>.
\<close>

fun shuffle_loop :: "(nat \<Rightarrow> real) \<Rightarrow> nat \<Rightarrow> nat \<Rightarrow> 'a list \<Rightarrow> 'a list" where
  "shuffle_loop rand k 0 xs = xs"
| "shuffle_loop rand k (Suc i) xs =
     shuffle_loop rand (Suc k) i (swap (Suc i) (nat \<lfloor>rand k * real (Suc i + 1)\<rfloor>) xs)"

definition shuffle :: "(nat \<Rightarrow> real) \<Rightarrow> queue \<Rightarrow> unit outcome" where
  "shuffle rand q =
     (case songs q of
        [] \<Rightarrow> (Inr (), q)
      | playing_song # rest \<Rightarrow>
          (Inr (), q\<lparr>songs := playing_song # shuffle_loop rand 0 (length rest - 1) rest\<rparr>))"

subsection \<open>jump (Queue.ts, lines 376-389)\<close>

definition jump :: "number arg \<Rightarrow> queue \<Rightarrow> unit outcome" where
  "jump a q =
     (case a of
        Num num \<Rightarrow>
          if js_gt num (array_length (songs q)) \<or>
             js_gt (js_neg num) (array_length (previousSongs q)) \<or> js_eq num (Finite 0)
          then (Inl (RangeError ''InvalidSong''), q)
          else if js_gt num (Finite 0)
          then (Inr (),
                record_call_if (audioPlayer q) AudioPlayerStop
                  (q\<lparr>songs := fst (splice_from (js_sub num (Finite 1)) (songs q)),
                     next_flag := True\<rparr>))
          else if \<not> savePreviousSongs (distube_options (distube q))
          then (Inl (RangeError ''InvalidSong''), q)
          else
            (let q1 = q\<lparr>prev := True\<rparr>;
                 q2 = (if \<not> js_eq num (Finite (- 1))
                       then q1\<lparr>songs := fst (splice_from (js_add num (Finite 1)) (previousSongs q1))
                                        @ songs q1,
                               previousSongs :=
                                 snd (splice_from (js_add num (Finite 1)) (previousSongs q1))\<rparr>
                       else q1)
             in (Inr (), record_call_if (audioPlayer q2) AudioPlayerStop q2))
      | _ \<Rightarrow> (Inl (TypeError ''num must be a number.''), q))"

subsection \<open>setRepeatMode, setFilter, seek (Queue.ts, lines 397-429)\<close>

text \<open>
  A number takes the first branch (\<^verbatim>\<open>!mode && mode !== 0\<close>) exactly when it is \<^verbatim>\<open>NaN\<close>, and then
  the mode cycles as it does for \<^verbatim>\<open>null\<close>.
\<close>

definition setRepeatMode :: "number arg \<Rightarrow> queue \<Rightarrow> number outcome" where
  "setRepeatMode mode q =
     (case mode of
        NonNumber \<Rightarrow> (Inl (TypeError ''mode must be a number or null.''), q)
      | Null \<Rightarrow>
          (let q1 = q\<lparr>repeatMode := js_rem (js_add (repeatMode q) (Finite 1)) (Finite 3)\<rparr>
           in (Inr (repeatMode q1), q1))
      | Num m \<Rightarrow>
          (let q1 = (if \<not> number_truthy m \<and> \<not> js_eq m (Finite 0)
                     then q\<lparr>repeatMode := js_rem (js_add (repeatMode q) (Finite 1)) (Finite 3)\<rparr>
                     else if js_eq (repeatMode q) m then q\<lparr>repeatMode := Finite 0\<rparr>
                     else q\<lparr>repeatMode := m\<rparr>)
           in (Inr (repeatMode q1), q1)))"

text \<open>
  The common end of \<^verbatim>\<open>setFilter\<close>: \<^verbatim>\<open>beginTime = currentTime\<close>, the handler is asked to play
  the song again, and the filters are returned.
\<close>

definition restart_with_filters :: "queue \<Rightarrow> string list outcome" where
  "restart_with_filters q =
     (let q1 = record_call HandlerPlaySong (q\<lparr>beginTime := currentTime q\<rparr>)
      in (Inr (filters q1), q1))"

text \<open>\<open>None\<close> is the argument \<^verbatim>\<open>false\<close>.\<close>

definition setFilter :: "string option \<Rightarrow> queue \<Rightarrow> string list outcome" where
  "setFilter f q =
     (case f of
        None \<Rightarrow> restart_with_filters (q\<lparr>filters := []\<rparr>)
      | Some filter_name \<Rightarrow>
          if filter_name \<notin> set (distube_filters (distube q))
          then (Inl (TypeError (filter_name @ '' is not a filter name.'')), q)
          else if filter_name \<in> set (filters q)
          then restart_with_filters (q\<lparr>filters := remove1 filter_name (filters q)\<rparr>)
          else restart_with_filters (q\<lparr>filters := filters q @ [filter_name]\<rparr>))"

definition seek :: "number \<Rightarrow> queue \<Rightarrow> unit outcome" where
  "seek time q = (Inr (), record_call HandlerPlaySong (q\<lparr>beginTime := time\<rparr>))"

subsection \<open>addRelatedSong, toggleAutoplay (Queue.ts, lines 435-449)\<close>

text \<open>
  \<open>resolveSong\<close> is the answer of \<^verbatim>\<open>this.handler.resolveSong\<close> for a url: a rejection, or the
  argument that is handed on to \<^verbatim>\<open>addToQueue\<close>.
\<close>

definition addRelatedSong ::
  "(jsval \<Rightarrow> error + song_arg option) \<Rightarrow> store \<Rightarrow> queue \<Rightarrow> (error + unit) \<times> store \<times> queue" where
  "addRelatedSong resolveSong h q =
     (case songs q of
        [] \<Rightarrow> (Inl (Error ''There is no playing song.''), h, q)
      | s # rest \<Rightarrow>
          (case find (\<lambda>v. related_id v \<notin> set (map (\<lambda>p. song_id (h p)) (previousSongs q)))
                  (related (h s)) of
             None \<Rightarrow> (Inl (Error ''Cannot find any related songs.''), h, q)
           | Some rel \<Rightarrow>
               if \<not> instanceof_Song rel
               then (Inl (Error ''Cannot find any related songs.''), h, q)
               else (case resolveSong (related_url rel) of
                       Inl e \<Rightarrow> (Inl e, h, q)
                     | Inr new_song \<Rightarrow> addToQueue new_song None h q)))"

definition toggleAutoplay :: "queue \<Rightarrow> bool outcome" where
  "toggleAutoplay q = (Inr (\<not> autoplay q), q\<lparr>autoplay := \<not> autoplay q\<rparr>)"

subsection \<open>Calls of the public methods, one after the other\<close>

text \<open>
  A command is one call of a method that changes the queue, with its arguments. \<open>exec\<close>
  makes the call on a store and a queue and gives the error thrown, if any, with the store
  and the queue after the call; \<open>run\<close> makes the calls of a list in order, each on the
  state the one before left, whether or not it threw.
\<close>

datatype command =
    AddToQueue "song_arg option" "number option"
  | Pause
  | Resume
  | Stop
  | SetVolume "number arg"
  | Skip
  | Previous
  | Shuffle "nat \<Rightarrow> real"
  | Jump "number arg"
  | SetRepeatMode "number arg"
  | SetFilter "string option"
  | Seek number
  | AddRelatedSong "jsval \<Rightarrow> error + song_arg option"
  | ToggleAutoplay

definition thrown :: "error + 'a \<Rightarrow> error option" where
  "thrown r = (case r of Inl e \<Rightarrow> Some e | Inr v \<Rightarrow> None)"

definition on_queue :: "store \<Rightarrow> 'r outcome \<Rightarrow> error option \<times> store \<times> queue" where
  "on_queue h out = (thrown (fst out), h, snd out)"

fun exec :: "command \<Rightarrow> store \<times> queue \<Rightarrow> error option \<times> store \<times> queue" where
  "exec (AddToQueue a p) (h, q) =
     (case addToQueue a p h q of (r, h1, q1) \<Rightarrow> (thrown r, h1, q1))"
| "exec Pause (h, q) = on_queue h (pause q)"
| "exec Resume (h, q) = on_queue h (resume q)"
| "exec Stop (h, q) = on_queue h (stop q)"
| "exec (SetVolume p) (h, q) = on_queue h (setVolume p q)"
| "exec Skip (h, q) = on_queue h (skip q)"
| "exec Previous (h, q) = on_queue h (previous q)"
| "exec (Shuffle rand) (h, q) = on_queue h (shuffle rand q)"
| "exec (Jump n) (h, q) = on_queue h (jump n q)"
| "exec (SetRepeatMode m) (h, q) = on_queue h (setRepeatMode m q)"
| "exec (SetFilter f) (h, q) = on_queue h (setFilter f q)"
| "exec (Seek t) (h, q) = on_queue h (seek t q)"
| "exec (AddRelatedSong resolveSong) (h, q) =
     (case addRelatedSong resolveSong h q of (r, h1, q1) \<Rightarrow> (thrown r, h1, q1))"
| "exec ToggleAutoplay (h, q) = on_queue h (toggleAutoplay q)"

definition queue_after :: "command \<Rightarrow> store \<Rightarrow> queue \<Rightarrow> queue" where
  "queue_after c h q = snd (snd (exec c (h, q)))"

fun run :: "command list \<Rightarrow> store \<times> queue \<Rightarrow> store \<times> queue" where
  "run [] st = st"
| "run (c # cs) st = run cs (snd (exec c st))"

subsection \<open>The invariants of the data model\<close>

definition flags_opposite :: "queue \<Rightarrow> bool" where
  "flags_opposite q = (playing q = (\<not> paused q))"

definition mode_and_time_ok :: "queue \<Rightarrow> bool" where
  "mode_and_time_ok q =
     ((repeatMode q = Finite 0 \<or> repeatMode q = Finite 1 \<or> repeatMode q = Finite 2) \<and>
      js_le (Finite 0) (beginTime q))"

text \<open>
  The arguments with which a call keeps the repeat mode and the begin time within the data
  model: for \<^verbatim>\<open>setRepeatMode\<close> with a number, one of the three codes or \<^verbatim>\<open>NaN\<close> (which cycles
  like no mode at all); for \<^verbatim>\<open>seek\<close>, a time that is not below 0. Every other call counts:
  \<^verbatim>\<open>setRepeatMode\<close> with no mode, with \<^verbatim>\<open>null\<close> or with a value that is not a number (which is
  rejected), and every other method with any argument.
\<close>

fun in_model :: "command \<Rightarrow> bool" where
  "in_model (SetRepeatMode (Num m)) =
     (m = NaN \<or> m = Finite 0 \<or> m = Finite 1 \<or> m = Finite 2)"
| "in_model (Seek t) = js_le (Finite 0) t"
| "in_model c = True"

text \<open>
  A JavaScript array holds fewer than \<open>2 ^ 32\<close> elements; \<open>js_arrays q\<close> says that of the two
  lists of the queue.
\<close>

definition js_arrays :: "queue \<Rightarrow> bool" where
  "js_arrays q = (length (songs q) < 2 ^ 32 \<and> length (previousSongs q) < 2 ^ 32)"

subsection \<open>The task serializer of a session\<close>

text \<open>
  Modelled from the spec: the per-session task serializer (the \<^verbatim>\<open>taskQueue\<close> of a queue),
  whose code is not among the sources; only the test of the queue manager refers to it.
  A unit of work ends in success or in failure.
\<close>

datatype completion = Succeeded | Failed

text \<open>
  Modelled from the spec: the state of the task serializer, which is not among the sources.
  \<open>waiting\<close> holds the units submitted and not yet started, oldest first (the internal FIFO
  queue); \<open>in_flight\<close> the units started and not yet completed; \<open>finished\<close> every completion
  observed so far with its result, oldest first.
\<close>

record 'u serializer =
  waiting :: "'u list"
  in_flight :: "'u list"
  finished :: "('u \<times> completion) list"

definition idle :: "'u serializer" where
  "idle = \<lparr> waiting = [], in_flight = [], finished = [] \<rparr>"

text \<open>
  Modelled from the spec: the serializer, not among the sources, "does not begin the next
  queued unit until the current one's asynchronous completion is observed": the oldest
  waiting unit starts when no unit is running.
\<close>

definition start_next :: "'u serializer \<Rightarrow> 'u serializer" where
  "start_next s =
     (case waiting s of
        [] \<Rightarrow> s
      | u # us \<Rightarrow> if in_flight s = [] then s\<lparr>waiting := us, in_flight := [u]\<rparr> else s)"

text \<open>
  Modelled from the spec: \<^verbatim>\<open>enqueue(unitOfWork)\<close> of the serializer, not among the sources,
  "appends a unit"; "if no unit is currently running, the submitted unit starts
  immediately".
\<close>

definition enqueue :: "'u \<Rightarrow> 'u serializer \<Rightarrow> 'u serializer" where
  "enqueue u s = start_next (s\<lparr>waiting := waiting s @ [u]\<rparr>)"

text \<open>
  Modelled from the spec: the completion of a running unit of the serializer, not among
  the sources. The result goes to the unit's own caller (the log \<open>finished\<close>); on success
  and on failure alike "the serializer always proceeds to the next unit". A completion of a
  unit that is not running does not happen.
\<close>

definition complete :: "'u \<Rightarrow> completion \<Rightarrow> 'u serializer \<Rightarrow> 'u serializer" where
  "complete u c s =
     (if u \<in> set (in_flight s)
      then start_next (s\<lparr>in_flight := remove1 u (in_flight s), finished := finished s @ [(u, c)]\<rparr>)
      else s)"

text \<open>
  Modelled from the spec: what happens to the serializer of one session, which is not among
  the sources, over time: units are submitted, and running units complete, in any
  interleaving.
\<close>

datatype 'u event = Submit 'u | Completes 'u completion

fun step :: "'u event \<Rightarrow> 'u serializer \<Rightarrow> 'u serializer" where
  "step (Submit u) s = enqueue u s"
| "step (Completes u c) s = complete u c s"

definition after_events :: "'u event list \<Rightarrow> 'u serializer" where
  "after_events es = fold step es idle"

fun submitted :: "'u event list \<Rightarrow> 'u list" where
  "submitted [] = []"
| "submitted (Submit u # es) = u # submitted es"
| "submitted (Completes u c # es) = submitted es"

subsection \<open>Concrete states\<close>

definition example_options :: DisTubeOptions where
  "example_options = \<lparr> savePreviousSongs = True, leaveOnStop = False \<rparr>"

definition example_distube :: DisTube where
  "example_distube =
     \<lparr> distube_options = example_options, distube_filters = [''bassboost'', ''echo''] \<rparr>"

text \<open>A queue as the constructor makes it from the three songs 10, 11 and 12.\<close>

definition example_queue :: queue where
  "example_queue = Queue example_distube example_options ''guild'' (Array [10, 11, 12])"

text \<open>The same queue with a history of three songs.\<close>

definition history_queue :: queue where
  "history_queue = example_queue\<lparr>previousSongs := [1, 2, 3]\<rparr>"

text \<open>The same queue in repeat-all mode, with one song in the history.\<close>

definition repeat_all_queue :: queue where
  "repeat_all_queue = example_queue\<lparr>previousSongs := [1], repeatMode := Finite 2\<rparr>"

text \<open>The queue with the history, under a DisTube instance that keeps no history.\<close>

definition no_history_options :: DisTubeOptions where
  "no_history_options = \<lparr> savePreviousSongs = False, leaveOnStop = False \<rparr>"

definition no_history_queue :: queue where
  "no_history_queue =
     history_queue\<lparr>distube := \<lparr> distube_options = no_history_options, distube_filters = [] \<rparr>,
                     options := no_history_options\<rparr>"

text \<open>A queue as the constructor makes it from an empty array of songs.\<close>

definition empty_queue :: queue where
  "empty_queue = Queue example_distube example_options ''guild'' (Array [])"

text \<open>A store in which every song still carries its raw info.\<close>

definition example_store :: store where
  "example_store r =
     \<lparr> source = ''youtube'', member = None, user = None,
       info = Some (Obj [(''full'', Bool True)]),
       song_id = Str ''abc'', name = Str ''A song'', isLive = False, duration = 100,
       formattedDuration = ''01:40'', url = Str ''https://www.youtube.com/watch?v=abc'',
       related = [] \<rparr>"

text \<open>A random source whose every draw is a quarter.\<close>

definition quarter :: "nat \<Rightarrow> real" where
  "quarter k = 1 / 4"

text \<open>Helpers for the examples, the raw info of two live items, and the song of the first.\<close>

definition example_helpers :: helpers where
  "example_helpers =
     \<lparr> toSecond = (\<lambda>v. 215),
       formatDuration = (\<lambda>d. ''03:35''),
       playError = (\<lambda>v. None),
       js_string = (\<lambda>v. case v of Str s \<Rightarrow> s | _ \<Rightarrow> ''undefined''),
       related_items = (\<lambda>v. []),
       youtube_rest = (\<lambda>v. Inr []) \<rparr>"

definition live_info :: jsval where
  "live_info =
     Obj [(''videoDetails'',
           Obj [(''videoId'', Str ''live1''), (''title'', Str ''Stream''),
                (''isLive'', Bool True), (''lengthSeconds'', Str ''215'')])]"

definition live_song :: song where
  "live_song =
     \<lparr> source = ''youtube'', member = None, user = None, info = None,
       song_id = Str ''live1'', name = Str ''Stream'', isLive = True, duration = 0,
       formattedDuration = ''Live'', url = Str ''https://www.youtube.com/watch?v=live1'',
       related = [] \<rparr>"

definition other_live_info :: jsval where
  "other_live_info =
     Obj [(''id'', Str ''s1''), (''title'', Str ''Radio''), (''is_live'', Bool True),
          (''duration'', Number 90), (''url'', Str ''https://example.org/s1'')]"

text \<open>
  Two notions for reasoning about the serializer: at most one unit runs and nothing waits
  behind an idle serializer; and the units in the order finished, running, waiting.
\<close>

definition one_running :: "'u serializer \<Rightarrow> bool" where
  "one_running s = (length (in_flight s) \<le> 1 \<and> (in_flight s = [] \<longrightarrow> waiting s = []))"

definition pending :: "'u serializer \<Rightarrow> 'u list" where
  "pending s = map fst (finished s) @ in_flight s @ waiting s"

text \<open>Three units; the first fails while the second waits.\<close>

definition example_events :: "nat event list" where
  "example_events =
     [Submit 1, Submit 2, Completes 1 Failed, Submit 3, Completes 2 Succeeded]"

section \<open>Properties\<close>

subsection \<open>Facts about numbers\<close>

lemma round_half_even_of_int: "round_half_even (of_int j) = j"
  by (simp add: round_half_even_def)

lemma ulp_pos: "0 < ulp x"
  by (simp add: ulp_def)

lemma fl_exact:
  assumes "x \<noteq> 0" and "x / ulp x = of_int j" and "\<bar>x\<bar> < 2 ^ 1024"
  shows "fl x = Finite x"
proof -
  have "round_half_even (x / ulp x) = j"
    by (simp add: assms(2) round_half_even_of_int)
  moreover from assms(2) ulp_pos [of x] have "of_int j * ulp x = x"
    by (simp add: field_simps)
  ultimately have "of_int (round_half_even (x / ulp x)) * ulp x = x"
    by simp
  with assms(1,3) show ?thesis
    by (simp add: fl_def Let_def)
qed

lemma real_of_int_abs_bounds:
  assumes "k \<noteq> 0" and "\<bar>k\<bar> < 2 ^ 53"
  shows "1 \<le> \<bar>real_of_int k\<bar>" and "\<bar>real_of_int k\<bar> < 2 ^ 53"
proof -
  from assms(1) have "1 \<le> \<bar>k\<bar>" by simp
  then have "real_of_int 1 \<le> real_of_int \<bar>k\<bar>"
    by (simp only: of_int_le_iff)
  then show "1 \<le> \<bar>real_of_int k\<bar>" by simp
  from assms(2) have "real_of_int \<bar>k\<bar> < real_of_int (2 ^ 53)"
    by (simp only: of_int_less_iff)
  then show "\<bar>real_of_int k\<bar> < 2 ^ 53" by simp
qed

lemma floor_log2_int_bounds:
  assumes "k \<noteq> 0" and "\<bar>k\<bar> < 2 ^ 53"
  shows "0 \<le> \<lfloor>log 2 \<bar>real_of_int k\<bar>\<rfloor>" and "\<lfloor>log 2 \<bar>real_of_int k\<bar>\<rfloor> \<le> 52"
proof -
  note b = real_of_int_abs_bounds [OF assms]
  from b(1) have "0 \<le> log 2 \<bar>real_of_int k\<bar>"
    by simp
  then show "0 \<le> \<lfloor>log 2 \<bar>real_of_int k\<bar>\<rfloor>"
    by simp
  from b(2) have "\<bar>real_of_int k\<bar> < 2 powr 53"
    by simp
  with b(1) have "log 2 \<bar>real_of_int k\<bar> < 53"
    by (subst log_less_iff) auto
  then show "\<lfloor>log 2 \<bar>real_of_int k\<bar>\<rfloor> \<le> 52"
    by (simp add: floor_less_iff)
qed

text \<open>An integer below \<open>2 ^ 53\<close> in magnitude is a double: rounding leaves it as it is.\<close>

lemma fl_of_int:
  assumes "\<bar>k\<bar> < 2 ^ 53"
  shows "fl (of_int k) = Finite (of_int k)"
proof (cases "k = 0")
  case True
  then show ?thesis by (simp add: fl_def)
next
  case False
  define e where "e = \<lfloor>log 2 \<bar>real_of_int k\<bar>\<rfloor>"
  from False assms have e: "0 \<le> e" "e \<le> 52"
    unfolding e_def by (rule floor_log2_int_bounds)+
  then have u: "ulp (of_int k) = 2 powr (- real (nat (52 - e)))"
    by (simp add: ulp_def e_def [symmetric] max_def)
  have whole: "real_of_int k / ulp (of_int k) = of_int (k * 2 ^ nat (52 - e))"
    unfolding u by (simp add: powr_minus powr_realpow field_simps)
  have "\<bar>real_of_int k\<bar> < 2 ^ 53"
    using False assms by (rule real_of_int_abs_bounds)
  also have "(2::real) ^ 53 < 2 ^ 1024"
    by (rule power_strict_increasing) simp_all
  finally have small: "\<bar>real_of_int k\<bar> < 2 ^ 1024" .
  from False have "real_of_int k \<noteq> 0" by simp
  then show ?thesis
    using whole small by (rule fl_exact)
qed

lemma fl_small_numerals: "fl 1 = Finite 1" "fl 2 = Finite 2" "fl 3 = Finite 3"
  using fl_of_int [of 1] fl_of_int [of 2] fl_of_int [of 3] by simp_all

lemma fl_minus_half: "fl (- (1 / 2)) = Finite (- (1 / 2))"
proof -
  have "\<lfloor>log 2 \<bar>- (1 / 2) :: real\<bar>\<rfloor> = - 1"
    by (subst floor_log_eq_powr_iff) (simp_all add: powr_minus)
  then have u: "ulp (- (1 / 2)) = 2 powr (- 53)"
    by (simp add: ulp_def)
  have whole: "(- (1 / 2) :: real) / ulp (- (1 / 2)) = of_int (- (2 ^ 52))"
    unfolding u by (simp add: powr_minus)
  have "(1::real) < 2 ^ 1024"
    by (rule one_less_power) simp_all
  then have small: "\<bar>- (1 / 2) :: real\<bar> < 2 ^ 1024"
    by simp
  have "(- (1 / 2) :: real) \<noteq> 0" by simp
  then show ?thesis
    using whole small by (rule fl_exact)
qed

text \<open>Rounding keeps a number that is not negative from becoming negative.\<close>

lemma fl_nonneg_cases:
  assumes "0 \<le> x"
  shows "fl x = PosInfinity \<or> (\<exists>r. fl x = Finite r \<and> 0 \<le> r)"
proof (cases "x = 0")
  case True
  then show ?thesis by (simp add: fl_def)
next
  case False
  from assms ulp_pos [of x] have "0 \<le> x / ulp x"
    by simp
  then have "0 \<le> round_half_even (x / ulp x)"
    by (auto simp add: round_half_even_def Let_def)
  with ulp_pos [of x] have "0 \<le> of_int (round_half_even (x / ulp x)) * ulp x"
    by simp
  with False show ?thesis
    by (auto simp add: fl_def Let_def)
qed

lemma js_le_zero_cases:
  "js_le (Finite 0) b \<longleftrightarrow> b = PosInfinity \<or> (\<exists>y. b = Finite y \<and> 0 \<le> y)"
  by (cases b) (auto simp add: js_le_def js_eq_def)

lemma fl_nonneg: "0 \<le> x \<Longrightarrow> js_le (Finite 0) (fl x)"
  using fl_nonneg_cases [of x] by (auto simp add: js_le_zero_cases)

lemma js_eq_Finite: "js_eq a (Finite x) \<longleftrightarrow> a = Finite x"
  by (auto simp add: js_eq_def)

lemma js_eq_not_NaN: "m \<noteq> NaN \<Longrightarrow> js_eq a m \<longleftrightarrow> a = m"
  by (auto simp add: js_eq_def)

lemma js_trunc_of_int: "js_trunc (of_int k) = k"
  by (simp add: js_trunc_def)

lemma js_sub_one_int:
  assumes "\<bar>n - 1\<bar> < 2 ^ 53"
  shows "js_sub (Finite (of_int n)) (Finite 1) = Finite (of_int (n - 1))"
  using fl_of_int [OF assms] by (simp add: js_sub_def)

lemma js_add_one_int:
  assumes "\<bar>n + 1\<bar> < 2 ^ 53"
  shows "js_add (Finite (of_int n)) (Finite 1) = Finite (of_int (n + 1))"
  using fl_of_int [OF assms] by simp

subsection \<open>pause and resume\<close>

text \<open>
  Claim C7. \<^verbatim>\<open>pause()\<close> throws exactly when the queue is paused already and otherwise sets
  \<open>playing = False\<close> and \<open>paused = True\<close>; \<^verbatim>\<open>resume()\<close> throws exactly when the queue is playing
  already and otherwise sets \<open>playing = True\<close> and \<open>paused = False\<close>. A call that throws leaves
  the queue as it was. Hence after a \<^verbatim>\<open>pause()\<close> that went through, a second \<^verbatim>\<open>pause()\<close>
  throws and changes nothing, and a \<^verbatim>\<open>resume()\<close> after it goes through.
\<close>

theorem pause_resume_toggle:
  "(isl (fst (pause q)) \<longleftrightarrow> paused q) \<and>
   (paused q \<longrightarrow> pause q = (Inl (Error ''The queue has been paused already.''), q)) \<and>
   (\<not> paused q \<longrightarrow>
      fst (pause q) = Inr () \<and> \<not> playing (snd (pause q)) \<and> paused (snd (pause q))) \<and>
   (isl (fst (resume q)) \<longleftrightarrow> playing q) \<and>
   (playing q \<longrightarrow> resume q = (Inl (Error ''The queue has been playing already.''), q)) \<and>
   (\<not> playing q \<longrightarrow>
      fst (resume q) = Inr () \<and> playing (snd (resume q)) \<and> \<not> paused (snd (resume q))) \<and>
   (\<not> paused q \<longrightarrow>
      isl (fst (pause (snd (pause q)))) \<and>
      snd (pause (snd (pause q))) = snd (pause q) \<and>
      fst (resume (snd (pause (snd (pause q))))) = Inr () \<and>
      playing (snd (resume (snd (pause (snd (pause q)))))) \<and>
      \<not> paused (snd (resume (snd (pause (snd (pause q)))))))"
  by (simp add: pause_def resume_def record_call_if_def record_call_def)

theorem pause_resume_toggle_witness:
  "\<not> paused example_queue \<and>
   fst (pause example_queue) = Inr () \<and>
   isl (fst (pause (snd (pause example_queue)))) \<and>
   fst (resume (snd (pause (snd (pause example_queue))))) = Inr () \<and>
   playing (snd (resume (snd (pause (snd (pause example_queue)))))) \<and>
   \<not> paused (snd (resume (snd (pause (snd (pause example_queue))))))"
proof -
  have unpaused: "\<not> paused example_queue"
    by (simp add: example_queue_def Queue_def)
  from pause_resume_toggle [of example_queue] unpaused show ?thesis
    by blast
qed

subsection \<open>previous\<close>

text \<open>
  Claim C1, as the code has it. \<^verbatim>\<open>previous()\<close> throws "savePreviousSongs is disabled." when
  the option is off, and "There is no previous song." when the option is on, the history
  is empty and the repeat mode is not 2; these are the only rejections, and they leave the
  queue as it was. Otherwise it sets \<open>prev\<close>, leaves both lists alone and returns, in repeat
  mode 2, the last element of \<open>songs\<close> (\<^verbatim>\<open>undefined\<close> when \<open>songs\<close> is empty), whatever the
  history holds, and in every other mode the last element of \<open>previousSongs\<close>.
\<close>

theorem previous_target:
  "(\<not> savePreviousSongs (options q) \<longrightarrow>
      previous q = (Inl (Error ''savePreviousSongs is disabled.''), q)) \<and>
   (savePreviousSongs (options q) \<and> previousSongs q = [] \<and> repeatMode q \<noteq> Finite 2 \<longrightarrow>
      previous q = (Inl (Error ''There is no previous song.''), q)) \<and>
   (isl (fst (previous q)) \<longleftrightarrow>
      \<not> savePreviousSongs (options q) \<or> (previousSongs q = [] \<and> repeatMode q \<noteq> Finite 2)) \<and>
   (\<not> isl (fst (previous q)) \<longrightarrow>
      prev (snd (previous q)) \<and>
      songs (snd (previous q)) = songs q \<and>
      previousSongs (snd (previous q)) = previousSongs q \<and>
      fst (previous q) =
        Inr (if repeatMode q = Finite 2 then last_opt (songs q) else Some (last (previousSongs q))))"
  by (simp add: previous_def record_call_if_def record_call_def last_opt_def js_eq_Finite)

theorem previous_target_witness:
  "\<not> isl (fst (previous history_queue)) \<and>
   prev (snd (previous history_queue)) \<and>
   fst (previous history_queue) = Inr (Some 3)"
proof -
  have accepted: "\<not> isl (fst (previous history_queue))"
    by (simp add: previous_def history_queue_def example_queue_def Queue_def example_options_def
        js_eq_Finite)
  have mode: "repeatMode history_queue \<noteq> Finite 2" and hist: "last (previousSongs history_queue) = 3"
    by (simp_all add: history_queue_def example_queue_def Queue_def)
  from previous_target [of history_queue] accepted mode hist show ?thesis
    by simp
qed

text \<open>
  The claim as the spec words it has the last element of \<open>songs\<close> returned only when the
  history is empty. In repeat mode 2 with the history \<open>[1]\<close> and the songs \<open>[10, 11, 12]\<close> the
  call returns song 12, not song 1.
\<close>

theorem previous_repeat_all_counterexample:
  "savePreviousSongs (options repeat_all_queue) \<and>
   repeatMode repeat_all_queue = Finite 2 \<and>
   previousSongs repeat_all_queue = [1] \<and>
   songs repeat_all_queue = [10, 11, 12] \<and>
   fst (previous repeat_all_queue) = Inr (Some 12) \<and>
   fst (previous repeat_all_queue) \<noteq> Inr (last_opt (previousSongs repeat_all_queue))"
  by (simp add: previous_def repeat_all_queue_def example_queue_def Queue_def example_options_def
      last_opt_def js_eq_Finite)

subsection \<open>skip\<close>

text \<open>
  Claim C6, as the code has it. \<^verbatim>\<open>skip()\<close> throws "There is no song to skip." exactly when
  \<open>songs\<close> holds at most one item (one or none) and autoplay is off, and then leaves the
  queue as it was. Otherwise it sets \<open>next\<close>, leaves \<open>songs\<close> and \<open>previousSongs\<close> alone and
  returns \<^verbatim>\<open>songs[1]\<close>.
\<close>

theorem skip_behaviour:
  "(isl (fst (skip q)) \<longleftrightarrow> length (songs q) \<le> 1 \<and> \<not> autoplay q) \<and>
   (isl (fst (skip q)) \<longrightarrow> skip q = (Inl (Error ''There is no song to skip.''), q)) \<and>
   (\<not> isl (fst (skip q)) \<longrightarrow>
      next_flag (snd (skip q)) \<and>
      songs (snd (skip q)) = songs q \<and>
      previousSongs (snd (skip q)) = previousSongs q \<and>
      fst (skip q) = Inr (nth_opt (songs q) 1))"
  by (simp add: skip_def record_call_if_def record_call_def)

theorem skip_behaviour_witness:
  "\<not> isl (fst (skip example_queue)) \<and>
   next_flag (snd (skip example_queue)) \<and>
   songs (snd (skip example_queue)) = [10, 11, 12] \<and>
   fst (skip example_queue) = Inr (Some 11)"
proof -
  have accepted: "\<not> isl (fst (skip example_queue))"
    by (simp add: skip_def example_queue_def Queue_def)
  have before: "songs example_queue = [10, 11, 12]"
    by (simp add: example_queue_def Queue_def)
  from skip_behaviour [of example_queue] accepted before show ?thesis
    by (simp add: nth_opt_def)
qed

text \<open>
  With no song at all and autoplay off the call throws as well, although \<open>songs\<close> does not
  contain exactly one item.
\<close>

theorem skip_empty_counterexample:
  "songs empty_queue = [] \<and>
   \<not> autoplay empty_queue \<and>
   length (songs empty_queue) \<noteq> 1 \<and>
   skip empty_queue = (Inl (Error ''There is no song to skip.''), empty_queue)"
  by (simp add: skip_def empty_queue_def Queue_def)

subsection \<open>jump\<close>

lemma clamp_start_forward:
  "0 \<le> start \<Longrightarrow> start \<le> int (length xs) \<Longrightarrow> clamp_start start xs = nat start"
  by (simp add: clamp_start_def Let_def)

lemma clamp_start_backward:
  "start < 0 \<Longrightarrow> - start \<le> int (length xs) \<Longrightarrow>
   clamp_start start xs = length xs - nat (- start)"
  by (simp add: clamp_start_def Let_def nat_diff_distrib')

lemma jump_rejects_iff:
  assumes "m \<noteq> NaN"
  shows "isl (fst (jump (Num m) q)) \<longleftrightarrow>
     js_eq m (Finite 0) \<or> js_gt m (array_length (songs q)) \<or>
     js_gt (js_neg m) (array_length (previousSongs q)) \<or>
     (js_lt m (Finite 0) \<and> \<not> savePreviousSongs (distube_options (distube q)))"
  using assms
  by (cases m) (auto simp add: jump_def Let_def js_gt_def js_eq_def array_length_def)

lemma jump_rejects_int_iff:
  "isl (fst (jump (Num (Finite (of_int n))) q)) \<longleftrightarrow>
     n = 0 \<or> n > int (length (songs q)) \<or> - n > int (length (previousSongs q)) \<or>
     (n < 0 \<and> \<not> savePreviousSongs (distube_options (distube q)))"
  by (auto simp add: jump_rejects_iff js_gt_def js_eq_def array_length_def)

lemma jump_rejected:
  "isl (fst (jump (Num m) q)) \<Longrightarrow> jump (Num m) q = (Inl (RangeError ''InvalidSong''), q)"
  by (auto simp add: jump_def Let_def split: if_splits)

lemma jump_forward:
  assumes "js_arrays q" and "\<not> isl (fst (jump (Num (Finite (of_int n))) q))" and "0 < n"
  shows "songs (snd (jump (Num (Finite (of_int n))) q)) = drop (nat (n - 1)) (songs q)"
    and "previousSongs (snd (jump (Num (Finite (of_int n))) q)) = previousSongs q"
    and "next_flag (snd (jump (Num (Finite (of_int n))) q))"
proof -
  from assms(2) have bound: "n \<le> int (length (songs q))" and history: "- n \<le> int (length (previousSongs q))"
    by (simp_all add: jump_rejects_int_iff)
  from assms(1) bound assms(3) have "\<bar>n - 1\<bar> < 2 ^ 53"
    by (simp add: js_arrays_def)
  then have minus: "js_sub (Finite (of_int n)) (Finite 1) = Finite (of_int (n - 1))"
    by (rule js_sub_one_int)
  from assms(3) bound have "clamp_start (n - 1) (songs q) = nat (n - 1)"
    by (intro clamp_start_forward) auto
  then have start: "splice_start (js_sub (Finite (of_int n)) (Finite 1)) (songs q) = nat (n - 1)"
    by (simp only: minus splice_start.simps js_trunc_of_int)
  from assms(3) bound history
  have accepted: "jump (Num (Finite (of_int n))) q =
      (Inr (),
       record_call_if (audioPlayer q) AudioPlayerStop
         (q\<lparr>songs := fst (splice_from (js_sub (Finite (of_int n)) (Finite 1)) (songs q)),
            next_flag := True\<rparr>))"
    by (simp add: jump_def js_gt_def js_eq_def array_length_def)
  show "songs (snd (jump (Num (Finite (of_int n))) q)) = drop (nat (n - 1)) (songs q)"
    by (simp add: accepted splice_from_def start record_call_if_def record_call_def)
  show "previousSongs (snd (jump (Num (Finite (of_int n))) q)) = previousSongs q"
    by (simp add: accepted record_call_if_def record_call_def)
  show "next_flag (snd (jump (Num (Finite (of_int n))) q))"
    by (simp add: accepted record_call_if_def record_call_def)
qed

lemma jump_backward:
  assumes "js_arrays q" and "\<not> isl (fst (jump (Num (Finite (of_int n))) q))" and "n < 0"
  shows "songs (snd (jump (Num (Finite (of_int n))) q)) =
           drop (length (previousSongs q) - nat (- n - 1)) (previousSongs q) @ songs q"
    and "previousSongs (snd (jump (Num (Finite (of_int n))) q)) =
           take (length (previousSongs q) - nat (- n - 1)) (previousSongs q)"
    and "prev (snd (jump (Num (Finite (of_int n))) q))"
proof -
  from assms(2,3) have bound: "- n \<le> int (length (previousSongs q))"
    and keep: "savePreviousSongs (distube_options (distube q))"
    by (auto simp add: jump_rejects_int_iff)
  from assms(1) bound assms(3) have "\<bar>n + 1\<bar> < 2 ^ 53"
    by (simp add: js_arrays_def)
  then have plus: "js_add (Finite (of_int n)) (Finite 1) = Finite (of_int (n + 1))"
    by (rule js_add_one_int)
  have start: "splice_start (js_add (Finite (of_int n)) (Finite 1)) (previousSongs q) =
      length (previousSongs q) - nat (- n - 1)"
    if "n \<noteq> - 1"
  proof -
    from that assms(3) have "n + 1 < 0" by simp
    moreover from bound have "- (n + 1) \<le> int (length (previousSongs q))" by simp
    ultimately have "clamp_start (n + 1) (previousSongs q)
        = length (previousSongs q) - nat (- (n + 1))"
      by (rule clamp_start_backward)
    moreover have "- (n + 1) = - n - 1" by simp
    ultimately have "clamp_start (n + 1) (previousSongs q)
        = length (previousSongs q) - nat (- n - 1)"
      by (simp only:)
    then show ?thesis
      by (simp only: plus splice_start.simps js_trunc_of_int)
  qed
  from assms(3) bound keep
  have accepted: "jump (Num (Finite (of_int n))) q =
      (Inr (),
       record_call_if (audioPlayer q) AudioPlayerStop
         (if n \<noteq> - 1
          then q\<lparr>prev := True,
                 songs := fst (splice_from (js_add (Finite (of_int n)) (Finite 1)) (previousSongs q))
                          @ songs q,
                 previousSongs :=
                   snd (splice_from (js_add (Finite (of_int n)) (Finite 1)) (previousSongs q))\<rparr>
          else q\<lparr>prev := True\<rparr>))"
    by (simp add: jump_def Let_def js_gt_def js_eq_def array_length_def)
  show "songs (snd (jump (Num (Finite (of_int n))) q)) =
           drop (length (previousSongs q) - nat (- n - 1)) (previousSongs q) @ songs q"
    unfolding accepted using start
    by (cases "n = - 1") (simp_all add: splice_from_def record_call_if_def record_call_def)
  show "previousSongs (snd (jump (Num (Finite (of_int n))) q)) =
           take (length (previousSongs q) - nat (- n - 1)) (previousSongs q)"
    unfolding accepted using start
    by (cases "n = - 1") (simp_all add: splice_from_def record_call_if_def record_call_def)
  show "prev (snd (jump (Num (Finite (of_int n))) q))"
    by (simp add: accepted record_call_if_def record_call_def)
qed

lemma jump_one:
  assumes "\<not> isl (fst (jump (Num (Finite 1)) q))"
  shows "songs (snd (jump (Num (Finite 1)) q)) = songs q"
proof -
  have "js_sub (Finite 1) (Finite 1) = Finite 0"
    by (simp add: js_sub_def fl_def)
  then have "fst (splice_from (js_sub (Finite 1) (Finite 1)) (songs q)) = songs q"
    by (simp add: splice_from_def js_trunc_def clamp_start_def)
  with assms show ?thesis
    by (auto simp add: jump_def js_gt_def js_eq_def array_length_def record_call_if_def
        record_call_def split: if_splits)
qed

text \<open>
  Claim C4, as the code has it. For a number \<open>m\<close> other than \<^verbatim>\<open>NaN\<close>, \<^verbatim>\<open>jump(m)\<close> throws exactly
  when \<open>m\<close> is 0, or \<open>m\<close> exceeds the length of \<open>songs\<close>, or \<open>-m\<close> exceeds the length of
  \<open>previousSongs\<close>, or \<open>m\<close> is negative while \<^verbatim>\<open>savePreviousSongs\<close> is off; whenever \<^verbatim>\<open>jump\<close>
  throws on a number, the error is the \<^verbatim>\<open>RangeError\<close> "InvalidSong" and the queue stays as it
  was. \<^verbatim>\<open>jump(1)\<close>, when it goes through, leaves \<open>songs\<close> unchanged. For an integer \<open>n\<close>, and
  lists that are JavaScript arrays (fewer than \<open>2 ^ 32\<close> elements): a forward jump that goes
  through replaces \<open>songs\<close> by its suffix from index \<open>n - 1\<close> and sets \<open>next\<close>; a backward jump
  that goes through takes the last \<open>-n - 1\<close> elements off \<open>previousSongs\<close>, puts them in front
  of \<open>songs\<close> in their order, and sets \<open>prev\<close>.
\<close>

theorem jump_behaviour:
  "(m \<noteq> NaN \<longrightarrow>
      (isl (fst (jump (Num m) q)) \<longleftrightarrow>
         js_eq m (Finite 0) \<or> js_gt m (array_length (songs q)) \<or>
         js_gt (js_neg m) (array_length (previousSongs q)) \<or>
         (js_lt m (Finite 0) \<and> \<not> savePreviousSongs (distube_options (distube q))))) \<and>
   (isl (fst (jump (Num m) q)) \<longrightarrow> jump (Num m) q = (Inl (RangeError ''InvalidSong''), q)) \<and>
   (isl (fst (jump (Num (Finite (of_int n))) q)) \<longleftrightarrow>
      n = 0 \<or> n > int (length (songs q)) \<or> - n > int (length (previousSongs q)) \<or>
      (n < 0 \<and> \<not> savePreviousSongs (distube_options (distube q)))) \<and>
   (js_arrays q \<and> \<not> isl (fst (jump (Num (Finite (of_int n))) q)) \<and> 0 < n \<longrightarrow>
      songs (snd (jump (Num (Finite (of_int n))) q)) = drop (nat (n - 1)) (songs q) \<and>
      previousSongs (snd (jump (Num (Finite (of_int n))) q)) = previousSongs q \<and>
      next_flag (snd (jump (Num (Finite (of_int n))) q))) \<and>
   (\<not> isl (fst (jump (Num (Finite 1)) q)) \<longrightarrow>
      songs (snd (jump (Num (Finite 1)) q)) = songs q) \<and>
   (js_arrays q \<and> \<not> isl (fst (jump (Num (Finite (of_int n))) q)) \<and> n < 0 \<longrightarrow>
      songs (snd (jump (Num (Finite (of_int n))) q)) =
        drop (length (previousSongs q) - nat (- n - 1)) (previousSongs q) @ songs q \<and>
      previousSongs (snd (jump (Num (Finite (of_int n))) q)) =
        take (length (previousSongs q) - nat (- n - 1)) (previousSongs q) \<and>
      prev (snd (jump (Num (Finite (of_int n))) q)))"
proof (intro conjI impI)
  assume "m \<noteq> NaN"
  then show "isl (fst (jump (Num m) q)) \<longleftrightarrow>
         js_eq m (Finite 0) \<or> js_gt m (array_length (songs q)) \<or>
         js_gt (js_neg m) (array_length (previousSongs q)) \<or>
         (js_lt m (Finite 0) \<and> \<not> savePreviousSongs (distube_options (distube q)))"
    by (rule jump_rejects_iff)
next
  assume "isl (fst (jump (Num m) q))"
  then show "jump (Num m) q = (Inl (RangeError ''InvalidSong''), q)"
    by (rule jump_rejected)
next
  show "isl (fst (jump (Num (Finite (of_int n))) q)) \<longleftrightarrow>
      n = 0 \<or> n > int (length (songs q)) \<or> - n > int (length (previousSongs q)) \<or>
      (n < 0 \<and> \<not> savePreviousSongs (distube_options (distube q)))"
    by (rule jump_rejects_int_iff)
next
  assume "\<not> isl (fst (jump (Num (Finite 1)) q))"
  then show "songs (snd (jump (Num (Finite 1)) q)) = songs q"
    by (rule jump_one)
qed (auto simp add: jump_forward jump_backward)

theorem jump_behaviour_witness:
  "js_arrays history_queue \<and>
   \<not> isl (fst (jump (Num (Finite 3)) history_queue)) \<and>
   songs (snd (jump (Num (Finite 3)) history_queue)) = [12] \<and>
   next_flag (snd (jump (Num (Finite 3)) history_queue)) \<and>
   \<not> isl (fst (jump (Num (Finite (- 3))) history_queue)) \<and>
   songs (snd (jump (Num (Finite (- 3))) history_queue)) = [2, 3, 10, 11, 12] \<and>
   previousSongs (snd (jump (Num (Finite (- 3))) history_queue)) = [1] \<and>
   prev (snd (jump (Num (Finite (- 3))) history_queue)) \<and>
   jump (Num (Finite 4)) history_queue = (Inl (RangeError ''InvalidSong''), history_queue) \<and>
   isl (fst (jump (Num (Finite (7 / 2))) history_queue))"
proof -
  have s: "songs history_queue = [10, 11, 12]" and p: "previousSongs history_queue = [1, 2, 3]"
    and o: "savePreviousSongs (distube_options (distube history_queue))"
    by (simp_all add: history_queue_def example_queue_def Queue_def example_distube_def
        example_options_def)
  from s p have arrays: "js_arrays history_queue"
    by (simp add: js_arrays_def)
  from arrays jump_behaviour [of "Finite 3" history_queue 3] s p
  have fwd: "\<not> isl (fst (jump (Num (Finite 3)) history_queue)) \<and>
      songs (snd (jump (Num (Finite 3)) history_queue)) = [12] \<and>
      next_flag (snd (jump (Num (Finite 3)) history_queue))"
    by (simp add: js_gt_def js_eq_def array_length_def)
  from arrays jump_behaviour [of "Finite (- 3)" history_queue "- 3"] s p o
  have bwd: "\<not> isl (fst (jump (Num (Finite (- 3))) history_queue)) \<and>
      songs (snd (jump (Num (Finite (- 3))) history_queue)) = [2, 3, 10, 11, 12] \<and>
      previousSongs (snd (jump (Num (Finite (- 3))) history_queue)) = [1] \<and>
      prev (snd (jump (Num (Finite (- 3))) history_queue))"
    by (simp add: js_gt_def js_eq_def array_length_def)
  from jump_behaviour [of "Finite 4" history_queue 4] s p
  have rej: "jump (Num (Finite 4)) history_queue = (Inl (RangeError ''InvalidSong''), history_queue)"
    by (simp add: js_gt_def js_eq_def array_length_def)
  from jump_behaviour [of "Finite (7 / 2)" history_queue 0] s
  have frac: "isl (fst (jump (Num (Finite (7 / 2))) history_queue))"
    by (simp add: js_gt_def array_length_def)
  from arrays fwd bwd rej frac show ?thesis by blast
qed

text \<open>
  The claim as the spec words it is about every number. With \<^verbatim>\<open>savePreviousSongs\<close> off
  \<^verbatim>\<open>jump(NaN)\<close> throws, although \<^verbatim>\<open>NaN\<close> is not 0, exceeds no length and is not negative. With
  the option on and the history \<open>[1, 2, 3]\<close>, \<^verbatim>\<open>jump(NaN)\<close> and \<^verbatim>\<open>jump(-1.5)\<close> go through and
  move the whole history in front of \<open>songs\<close>, not its last \<open>-n - 1\<close> elements.
\<close>

theorem jump_not_an_integer_counterexample:
  "\<not> savePreviousSongs (distube_options (distube no_history_queue)) \<and>
   jump (Num NaN) no_history_queue = (Inl (RangeError ''InvalidSong''), no_history_queue) \<and>
   \<not> js_eq NaN (Finite 0) \<and>
   \<not> js_gt NaN (array_length (songs no_history_queue)) \<and>
   \<not> js_gt (js_neg NaN) (array_length (previousSongs no_history_queue)) \<and>
   \<not> js_lt NaN (Finite 0) \<and>
   previousSongs history_queue = [1, 2, 3] \<and>
   fst (jump (Num NaN) history_queue) = Inr () \<and>
   songs (snd (jump (Num NaN) history_queue)) = [1, 2, 3, 10, 11, 12] \<and>
   previousSongs (snd (jump (Num NaN) history_queue)) = [] \<and>
   fst (jump (Num (Finite (- (3 / 2)))) history_queue) = Inr () \<and>
   songs (snd (jump (Num (Finite (- (3 / 2)))) history_queue)) = [1, 2, 3, 10, 11, 12] \<and>
   previousSongs (snd (jump (Num (Finite (- (3 / 2)))) history_queue)) = []"
  by (simp add: jump_def Let_def js_gt_def js_eq_def array_length_def splice_from_def
      no_history_queue_def no_history_options_def history_queue_def example_queue_def Queue_def
      example_distube_def example_options_def record_call_if_def fl_minus_half js_trunc_def
      clamp_start_def)

subsection \<open>addToQueue\<close>









subsection \<open>shuffle\<close>

lemma random_index_bound:
  assumes "0 \<le> r" and "r < 1"
  shows "nat \<lfloor>r * real (Suc n)\<rfloor> \<le> n"
proof -
  have "r * real (Suc n) < real (Suc n)"
    using assms by simp
  then have "\<lfloor>r * real (Suc n)\<rfloor> < int (Suc n)"
    by (simp add: floor_less_iff)
  then show ?thesis by simp
qed

lemma mset_swap_in_range:
  "i < length xs \<Longrightarrow> j < length xs \<Longrightarrow> mset (swap i j xs) = mset xs"
  by (simp add: swap_def mset_swap)

lemma length_swap: "length (swap i j xs) = length xs"
  by (simp add: swap_def)

lemma mset_shuffle_loop:
  assumes "\<forall>k. 0 \<le> rand k \<and> rand k < 1"
  shows "i < length xs \<or> i = 0 \<Longrightarrow> mset (shuffle_loop rand k i xs) = mset xs"
proof (induction i arbitrary: k xs)
  case 0
  then show ?case by simp
next
  case (Suc i)
  then have inside: "Suc i < length xs" by simp
  from assms have "nat \<lfloor>rand k * real (Suc (Suc i))\<rfloor> \<le> Suc i"
    by (intro random_index_bound) auto
  with inside have j: "nat \<lfloor>rand k * real (Suc i + 1)\<rfloor> < length xs"
    by simp
  have "mset (shuffle_loop rand (Suc k) i (swap (Suc i) (nat \<lfloor>rand k * real (Suc i + 1)\<rfloor>) xs))
      = mset (swap (Suc i) (nat \<lfloor>rand k * real (Suc i + 1)\<rfloor>) xs)"
    using inside by (intro Suc.IH) (simp add: length_swap)
  also have "\<dots> = mset xs"
    using inside j by (rule mset_swap_in_range)
  finally show ?case by simp
qed

text \<open>
  Claim C5. For a queue with at least one song and draws of \<^verbatim>\<open>Math.random()\<close> in \<open>[0, 1)\<close>,
  whatever they are, \<^verbatim>\<open>shuffle()\<close> goes through, the song at index 0 is the one that was
  there before, and the songs after it are the same ones as before, each as often as
  before. The history is not touched.
\<close>

theorem shuffle_keeps_head_and_members:
  assumes "songs q \<noteq> []" and "\<forall>k. 0 \<le> rand k \<and> rand k < 1"
  shows "fst (shuffle rand q) = Inr () \<and>
         songs (snd (shuffle rand q)) \<noteq> [] \<and>
         hd (songs (snd (shuffle rand q))) = hd (songs q) \<and>
         mset (tl (songs (snd (shuffle rand q)))) = mset (tl (songs q)) \<and>
         previousSongs (snd (shuffle rand q)) = previousSongs q"
proof -
  from assms(1) obtain s rest where split: "songs q = s # rest"
    by (cases "songs q") auto
  have "length rest - 1 < length rest \<or> length rest - 1 = 0"
    by (cases rest) auto
  then have "mset (shuffle_loop rand 0 (length rest - 1) rest) = mset rest"
    by (rule mset_shuffle_loop [OF assms(2)])
  with split show ?thesis
    by (simp add: shuffle_def)
qed

theorem shuffle_keeps_head_and_members_witness:
  "songs example_queue = [10, 11, 12] \<and>
   songs (snd (shuffle quarter example_queue)) = [10, 12, 11] \<and>
   hd (songs (snd (shuffle quarter example_queue))) = 10 \<and>
   mset (tl (songs (snd (shuffle quarter example_queue)))) = mset [11, 12]"
proof -
  have s: "songs example_queue = [10, 11, 12]"
    by (simp add: example_queue_def Queue_def)
  then have nonempty: "songs example_queue \<noteq> []"
    by simp
  have draws: "\<forall>k. 0 \<le> quarter k \<and> quarter k < 1"
    by (simp add: quarter_def)
  have run: "songs (snd (shuffle quarter example_queue)) = [10, 12, 11]"
    by (simp add: shuffle_def s quarter_def swap_def)
  from shuffle_keeps_head_and_members [OF nonempty draws] s run show ?thesis
    by simp
qed

subsection \<open>Songs\<close>

lemma patchYouTube_live:
  "patchYouTube H src m i = Inr s \<Longrightarrow> isLive s \<Longrightarrow> duration s = 0"
  by (auto simp add: patchYouTube_def Let_def split: if_splits sum.splits option.splits)

lemma patchOther_live:
  "patchOther H src m i = Inr s \<Longrightarrow> isLive s \<Longrightarrow> duration s = 0"
  by (auto simp add: patchOther_def Let_def split: if_splits)

text \<open>
  Claim C9. A song that the constructor returns, through \<^verbatim>\<open>_patchYouTube\<close> or through
  \<^verbatim>\<open>_patchOther\<close>, has duration 0 whenever its \<open>isLive\<close> flag is set, whatever the helpers
  \<^verbatim>\<open>toSecond\<close>, \<^verbatim>\<open>formatDuration\<close> and the others compute.
\<close>

theorem live_song_duration_zero:
  "(patchYouTube H src m i = Inr s \<longrightarrow> isLive s \<longrightarrow> duration s = 0) \<and>
   (patchOther H src m i = Inr s \<longrightarrow> isLive s \<longrightarrow> duration s = 0) \<and>
   (Song H i m given_src = Inr s \<longrightarrow> isLive s \<longrightarrow> duration s = 0)"
proof (intro conjI impI)
  assume built: "Song H i m given_src = Inr s" and live: "isLive s"
  from built obtain src where
    "patchYouTube H src m i = Inr s \<or> patchOther H src m i = Inr s"
    by (auto simp add: Song_def Let_def split: jsval.splits if_splits)
  with live show "duration s = 0"
    by (auto dest: patchYouTube_live patchOther_live)
qed (auto dest: patchYouTube_live patchOther_live)

lemma lower_youtube: "toLowerCase ''YouTube'' = ''youtube''"
  by code_simp

lemma lower_sc: "toLowerCase ''soundcloud'' = ''soundcloud''"
  by (simp add: toLowerCase_def lower_char_def)

theorem live_song_duration_zero_witness:
  "Song example_helpers live_info None (Str ''YouTube'') = Inr live_song \<and>
   isLive live_song \<and> duration live_song = 0 \<and>
   isl (Song example_helpers live_info None (Bool True)) \<and>
   \<not> isl (Song example_helpers other_live_info None (Str ''soundcloud'')) \<and>
   isLive (projr (Song example_helpers other_live_info None (Str ''soundcloud''))) \<and>
   duration (projr (Song example_helpers other_live_info None (Str ''soundcloud''))) = 0"
proof -
  have built: "Song example_helpers live_info None (Str ''YouTube'') = Inr live_song"
    by (simp add: Song_def lower_youtube patchYouTube_def nullish_def live_info_def js_prop_def
        js_or_def example_helpers_def live_song_def)
  have live: "isLive live_song"
    by (simp add: live_song_def)
  have refused: "isl (Song example_helpers live_info None (Bool True))"
    by (simp add: Song_def)
  have other: "Song example_helpers other_live_info None (Str ''soundcloud'') =
      Inr (projr (Song example_helpers other_live_info None (Str ''soundcloud'')))"
    and other_live:
      "isLive (projr (Song example_helpers other_live_info None (Str ''soundcloud'')))"
    by (simp_all add: Song_def lower_sc patchOther_def nullish_def other_live_info_def
        js_prop_def js_or_def example_helpers_def)
  from live_song_duration_zero
    [of example_helpers "''youtube''" None live_info live_song "Str ''YouTube''"] built live
  have yt: "duration live_song = 0"
    by simp
  from live_song_duration_zero
    [of example_helpers "''soundcloud''" None other_live_info
        "projr (Song example_helpers other_live_info None (Str ''soundcloud''))"
        "Str ''soundcloud''"] other other_live
  have oth: "duration (projr (Song example_helpers other_live_info None (Str ''soundcloud''))) = 0"
    by simp
  from other have accepted: "\<not> isl (Song example_helpers other_live_info None (Str ''soundcloud''))"
    by (metis sum.disc(2))
  from built live yt refused accepted other_live oth show ?thesis
    by blast
qed

subsection \<open>Shared facts: what a method leaves alone\<close>

lemma record_call_if_flags:
  "playing (record_call_if b c q) = playing q"
  "paused (record_call_if b c q) = paused q"
  "repeatMode (record_call_if b c q) = repeatMode q"
  "beginTime (record_call_if b c q) = beginTime q"
  by (simp_all add: record_call_if_def record_call_def)

lemma record_call_flags:
  "playing (record_call c q) = playing q"
  "paused (record_call c q) = paused q"
  "repeatMode (record_call c q) = repeatMode q"
  "beginTime (record_call c q) = beginTime q"
  by (simp_all add: record_call_def)

lemma addToQueue_keeps:
  "playing (snd (snd (addToQueue a p h q))) = playing q \<and>
   paused (snd (snd (addToQueue a p h q))) = paused q \<and>
   repeatMode (snd (snd (addToQueue a p h q))) = repeatMode q \<and>
   beginTime (snd (snd (addToQueue a p h q))) = beginTime q"
  by (simp add: addToQueue_def Let_def split: option.splits)

lemma addRelatedSong_keeps:
  "playing (snd (snd (addRelatedSong f h q))) = playing q \<and>
   paused (snd (snd (addRelatedSong f h q))) = paused q \<and>
   repeatMode (snd (snd (addRelatedSong f h q))) = repeatMode q \<and>
   beginTime (snd (snd (addRelatedSong f h q))) = beginTime q"
  by (simp add: addRelatedSong_def addToQueue_keeps split: list.splits option.splits sum.splits)

lemma queue_after_AddToQueue:
  "queue_after (AddToQueue a p) h q = snd (snd (addToQueue a p h q))"
  by (simp add: queue_after_def split: prod.splits)

lemma queue_after_AddRelatedSong:
  "queue_after (AddRelatedSong f) h q = snd (snd (addRelatedSong f h q))"
  by (simp add: queue_after_def split: prod.splits)

subsection \<open>The flags playing and paused\<close>

lemma flags_untouched:
  assumes "c \<noteq> Pause" and "c \<noteq> Resume"
  shows "playing (queue_after c h q) = playing q \<and> paused (queue_after c h q) = paused q"
proof (cases c)
  case (AddToQueue a p)
  then show ?thesis
    by (simp add: queue_after_def addToQueue_keeps split: prod.splits)
       (metis addToQueue_keeps snd_conv)
next
  case (AddRelatedSong f)
  then show ?thesis
    by (simp add: queue_after_def split: prod.splits)
       (metis addRelatedSong_keeps snd_conv)
next
  case (Jump a)
  then show ?thesis
    by (cases a)
       (simp_all add: queue_after_def on_queue_def jump_def Let_def record_call_if_def
          record_call_def)
next
  case (SetVolume a)
  then show ?thesis
    by (cases a)
       (simp_all add: queue_after_def on_queue_def setVolume_def Let_def record_call_if_def
          record_call_def)
next
  case (SetRepeatMode a)
  then show ?thesis
    by (cases a) (simp_all add: queue_after_def on_queue_def setRepeatMode_def Let_def)
next
  case (SetFilter f)
  then show ?thesis
    by (cases f)
       (simp_all add: queue_after_def on_queue_def setFilter_def restart_with_filters_def
          Let_def record_call_def)
next
  case (Shuffle rand)
  then show ?thesis
    by (simp add: queue_after_def on_queue_def shuffle_def split: list.splits)
qed (use assms in \<open>simp_all add: queue_after_def on_queue_def stop_def skip_def previous_def
      seek_def toggleAutoplay_def Let_def record_call_if_def record_call_def\<close>)

lemma flags_opposite_step:
  assumes "flags_opposite q"
  shows "flags_opposite (queue_after c h q)"
proof (cases "c = Pause \<or> c = Resume")
  case True
  with assms show ?thesis
    by (auto simp add: flags_opposite_def queue_after_def on_queue_def pause_def resume_def
        record_call_if_flags)
next
  case False
  with assms flags_untouched [of c h q] show ?thesis
    by (simp add: flags_opposite_def)
qed

lemma flags_opposite_run:
  "flags_opposite q \<Longrightarrow> flags_opposite (snd (run cs (h, q)))"
proof (induction cs arbitrary: h q)
  case Nil
  then show ?case by simp
next
  case (Cons c cs)
  obtain r h1 q1 where ex: "exec c (h, q) = (r, h1, q1)"
    by (cases "exec c (h, q)") auto
  then have "q1 = queue_after c h q"
    by (simp add: queue_after_def)
  with Cons.prems have "flags_opposite q1"
    by (simp add: flags_opposite_step)
  then have "flags_opposite (snd (run cs (h1, q1)))"
    by (rule Cons.IH)
  with ex show ?case by simp
qed

text \<open>
  Claim C10. In a queue that the constructor has just made \<open>playing\<close> is true and \<open>paused\<close>
  is false. Every call of a method keeps \<open>playing = (\<not> paused)\<close>: \<^verbatim>\<open>pause()\<close> and \<^verbatim>\<open>resume()\<close>
  write the two flags with opposite values, and no other method writes either of them.
  So the equation holds after every sequence of calls on a new queue.
\<close>

theorem playing_opposite_of_paused:
  "flags_opposite (Queue d opts gid song) \<and>
   playing (Queue d opts gid song) \<and> \<not> paused (Queue d opts gid song) \<and>
   (flags_opposite q \<longrightarrow> flags_opposite (queue_after c h q)) \<and>
   (c \<noteq> Pause \<and> c \<noteq> Resume \<longrightarrow>
      playing (queue_after c h q) = playing q \<and> paused (queue_after c h q) = paused q) \<and>
   flags_opposite (snd (run cs (h, Queue d opts gid song)))"
proof -
  have fresh: "flags_opposite (Queue d opts gid song)"
    by (simp add: flags_opposite_def Queue_def)
  then have "flags_opposite (snd (run cs (h, Queue d opts gid song)))"
    by (rule flags_opposite_run)
  with fresh show ?thesis
    by (auto simp add: flags_opposite_step flags_untouched) (simp_all add: Queue_def)
qed

theorem playing_opposite_of_paused_witness:
  "flags_opposite example_queue \<and>
   flags_opposite (queue_after Pause example_store example_queue) \<and>
   paused (queue_after Pause example_store example_queue) \<and>
   playing (queue_after (Seek (Finite 3)) example_store example_queue) \<and>
   flags_opposite
     (snd (run [Pause, Skip, SetFilter (Some ''echo''), Resume, Jump (Num (Finite 2)), Pause]
            (example_store, example_queue)))"
proof -
  note general = playing_opposite_of_paused
    [of example_distube example_options "''guild''" "Array [10, 11, 12]"]
  have fresh: "flags_opposite example_queue" and plays: "playing example_queue"
    using general [of example_queue Pause example_store "[]"]
    by (simp_all add: example_queue_def)
  from fresh general [of example_queue Pause example_store "[]"]
  have step: "flags_opposite (queue_after Pause example_store example_queue)"
    by simp
  have now_paused: "paused (queue_after Pause example_store example_queue)"
    by (simp add: queue_after_def on_queue_def pause_def example_queue_def Queue_def
        record_call_if_def)
  from plays general [of example_queue "Seek (Finite 3)" example_store "[]"]
  have seek_keeps: "playing (queue_after (Seek (Finite 3)) example_store example_queue)"
    by simp
  from general [of example_queue Pause example_store
      "[Pause, Skip, SetFilter (Some ''echo''), Resume, Jump (Num (Finite 2)), Pause]"]
  have trace: "flags_opposite
     (snd (run [Pause, Skip, SetFilter (Some ''echo''), Resume, Jump (Num (Finite 2)), Pause]
            (example_store, example_queue)))"
    by (simp only: example_queue_def)
  from fresh step now_paused seek_keeps trace show ?thesis
    by blast
qed

subsection \<open>The repeat mode and the begin time\<close>

lemma js_add_nonneg:
  assumes "js_le (Finite 0) a" and "js_le (Finite 0) b"
  shows "js_le (Finite 0) (js_add a b)"
proof -
  from assms obtain "a = PosInfinity \<or> (\<exists>x. a = Finite x \<and> 0 \<le> x)"
    and "b = PosInfinity \<or> (\<exists>y. b = Finite y \<and> 0 \<le> y)"
    by (simp add: js_le_zero_cases)
  then show ?thesis
    by (auto simp add: fl_nonneg) (simp_all add: js_le_zero_cases)
qed

lemma currentTime_nonneg:
  assumes "js_le (Finite 0) (beginTime q)"
  shows "js_le (Finite 0) (currentTime q)"
proof (cases "audioResource q")
  case None
  then show ?thesis
    by (simp add: currentTime_def js_le_zero_cases)
next
  case (Some r)
  have "js_le (Finite 0) (js_div_by 1000 (Finite (real (playbackDuration r))))"
    by (simp add: fl_nonneg)
  with assms have "js_le (Finite 0)
      (js_add (js_div_by 1000 (Finite (real (playbackDuration r)))) (beginTime q))"
    by (intro js_add_nonneg)
  with Some show ?thesis
    by (simp add: currentTime_def)
qed

lemma currentTime_filters: "currentTime (q\<lparr>filters := fs\<rparr>) = currentTime q"
  by (simp add: currentTime_def split: option.splits)

lemma setRepeatMode_number:
  "setRepeatMode (Num m) q =
     (Inr (if m = NaN then js_rem (js_add (repeatMode q) (Finite 1)) (Finite 3)
           else if repeatMode q = m then Finite 0 else m),
      q\<lparr>repeatMode := (if m = NaN then js_rem (js_add (repeatMode q) (Finite 1)) (Finite 3)
                        else if repeatMode q = m then Finite 0 else m)\<rparr>)"
  by (auto simp add: setRepeatMode_def Let_def number_truthy_def js_eq_def)

lemma mode_and_time_step:
  assumes "mode_and_time_ok q"
  shows "mode_and_time_ok (queue_after c h q) \<longleftrightarrow> in_model c"
proof (cases c)
  case (AddToQueue a p)
  with assms addToQueue_keeps [of a p h q] show ?thesis
    by (simp add: queue_after_AddToQueue mode_and_time_ok_def)
next
  case (AddRelatedSong f)
  with assms addRelatedSong_keeps [of f h q] show ?thesis
    by (simp add: queue_after_AddRelatedSong mode_and_time_ok_def)
next
  case (Jump a)
  with assms show ?thesis
    by (cases a)
       (simp_all add: queue_after_def on_queue_def mode_and_time_ok_def jump_def Let_def
          record_call_if_flags)
next
  case (SetVolume a)
  with assms show ?thesis
    by (cases a)
       (simp_all add: queue_after_def on_queue_def mode_and_time_ok_def setVolume_def Let_def
          record_call_if_flags)
next
  case (SetRepeatMode a)
  show ?thesis
  proof (cases a)
    case (Num m)
    with assms SetRepeatMode show ?thesis
      by (auto simp add: queue_after_def on_queue_def mode_and_time_ok_def
          setRepeatMode_number fl_small_numerals)
  next
    case Null
    with assms SetRepeatMode show ?thesis
      by (auto simp add: queue_after_def on_queue_def mode_and_time_ok_def
          setRepeatMode_def Let_def fl_small_numerals)
  next
    case NonNumber
    with assms SetRepeatMode show ?thesis
      by (simp add: queue_after_def on_queue_def setRepeatMode_def)
  qed
next
  case (SetFilter f)
  with assms show ?thesis
    by (cases f)
       (simp_all add: queue_after_def on_queue_def mode_and_time_ok_def setFilter_def
          restart_with_filters_def Let_def currentTime_nonneg currentTime_filters
          record_call_flags)
next
  case (Shuffle rand)
  with assms show ?thesis
    by (simp add: queue_after_def on_queue_def mode_and_time_ok_def shuffle_def
        split: list.splits)
next
  case (Seek t)
  with assms show ?thesis
    by (simp add: queue_after_def on_queue_def mode_and_time_ok_def seek_def record_call_flags)
qed (use assms in \<open>auto simp add: queue_after_def on_queue_def mode_and_time_ok_def
      pause_def resume_def stop_def skip_def previous_def toggleAutoplay_def Let_def
      record_call_if_flags record_call_flags\<close>)

lemma mode_and_time_run:
  "mode_and_time_ok q \<Longrightarrow> list_all in_model cs \<Longrightarrow> mode_and_time_ok (snd (run cs (h, q)))"
proof (induction cs arbitrary: h q)
  case Nil
  then show ?case by simp
next
  case (Cons c cs)
  obtain r h1 q1 where ex: "exec c (h, q) = (r, h1, q1)"
    by (cases "exec c (h, q)") auto
  then have "q1 = queue_after c h q"
    by (simp add: queue_after_def)
  with Cons.prems have "mode_and_time_ok q1"
    by (simp add: mode_and_time_step)
  with Cons.prems have "mode_and_time_ok (snd (run cs (h1, q1)))"
    by (intro Cons.IH) simp_all
  with ex show ?case by simp
qed

text \<open>
  Claim C2, as the code has it. A queue that the constructor has just made has a repeat
  mode in \<open>{0, 1, 2}\<close> and a begin time that is not below 0. From a queue of which that
  holds: \<^verbatim>\<open>setRepeatMode\<close> with a number keeps it exactly when the number is 0, 1, 2 or
  \<^verbatim>\<open>NaN\<close>, and with no mode, \<^verbatim>\<open>null\<close> or a value that is not a number (a rejected call) it
  keeps it always; \<^verbatim>\<open>seek\<close> keeps it exactly when the time is not below 0; \<^verbatim>\<open>setFilter\<close> and
  every other method keep it with any argument. So it holds after every sequence of such
  calls on a new queue. \<^verbatim>\<open>setRepeatMode\<close> rejects no number: given
  \<^verbatim>\<open>NaN\<close> it cycles the mode as it does for no mode, given the number that is the current
  mode it stores 0, and given any other number it stores that number. \<^verbatim>\<open>seek\<close> rejects
  nothing and stores the time it is given.
\<close>

theorem mode_and_time_kept_within_model:
  "mode_and_time_ok (Queue d opts gid song) \<and>
   (mode_and_time_ok q \<longrightarrow> (mode_and_time_ok (queue_after c h q) \<longleftrightarrow> in_model c)) \<and>
   (list_all in_model cs \<longrightarrow> mode_and_time_ok (snd (run cs (h, Queue d opts gid song)))) \<and>
   fst (setRepeatMode (Num m) q) = Inr (repeatMode (snd (setRepeatMode (Num m) q))) \<and>
   repeatMode (snd (setRepeatMode (Num m) q)) =
     (if m = NaN then js_rem (js_add (repeatMode q) (Finite 1)) (Finite 3)
      else if repeatMode q = m then Finite 0 else m) \<and>
   fst (seek t q) = Inr () \<and>
   beginTime (snd (seek t q)) = t"
proof -
  have fresh: "mode_and_time_ok (Queue d opts gid song)"
    by (simp add: mode_and_time_ok_def Queue_def js_le_def js_eq_def)
  then have "list_all in_model cs \<longrightarrow> mode_and_time_ok (snd (run cs (h, Queue d opts gid song)))"
    by (simp add: mode_and_time_run)
  with fresh show ?thesis
    by (simp add: mode_and_time_step setRepeatMode_number seek_def record_call_flags)
qed

theorem mode_and_time_kept_within_model_witness:
  "mode_and_time_ok example_queue \<and>
   in_model (SetRepeatMode (Num (Finite 2))) \<and>
   mode_and_time_ok (queue_after (SetRepeatMode (Num (Finite 2))) example_store example_queue) \<and>
   repeatMode (snd (setRepeatMode (Num (Finite 2)) example_queue)) = Finite 2 \<and>
   repeatMode (snd (setRepeatMode (Num (Finite 0)) example_queue)) = Finite 0 \<and>
   repeatMode (snd (setRepeatMode (Num NaN) example_queue)) = Finite 1 \<and>
   \<not> mode_and_time_ok (queue_after (SetRepeatMode (Num (Finite (3 / 2)))) example_store
        example_queue) \<and>
   mode_and_time_ok (queue_after (Seek (Finite (7 / 2))) example_store example_queue) \<and>
   mode_and_time_ok
     (snd (run [SetRepeatMode Null, Seek (Finite 12), SetFilter (Some ''echo''),
                SetRepeatMode (Num (Finite 1))]
            (example_store, example_queue)))"
proof -
  note general = mode_and_time_kept_within_model
    [of example_distube example_options "''guild''" "Array [10, 11, 12]"]
  have fresh: "mode_and_time_ok example_queue" and mode0: "repeatMode example_queue = Finite 0"
    using general [of example_queue Pause example_store "[]" NaN "Finite 0"]
    by (simp_all add: example_queue_def) (simp add: Queue_def)
  have arg: "in_model (SetRepeatMode (Num (Finite 2)))"
    and time: "in_model (Seek (Finite (7 / 2)))"
    and frac: "\<not> in_model (SetRepeatMode (Num (Finite (3 / 2))))"
    by (simp_all add: js_le_def js_eq_def)
  from fresh arg
    general [of example_queue "SetRepeatMode (Num (Finite 2))" example_store "[]" NaN "Finite 0"]
  have set_mode: "mode_and_time_ok
      (queue_after (SetRepeatMode (Num (Finite 2))) example_store example_queue)"
    by blast
  from mode0 general [of example_queue Pause example_store "[]" "Finite 2" "Finite 0"]
  have stored: "repeatMode (snd (setRepeatMode (Num (Finite 2)) example_queue)) = Finite 2"
    by simp
  from mode0 general [of example_queue Pause example_store "[]" "Finite 0" "Finite 0"]
  have same: "repeatMode (snd (setRepeatMode (Num (Finite 0)) example_queue)) = Finite 0"
    by simp
  from mode0 general [of example_queue Pause example_store "[]" NaN "Finite 0"]
  have cycled: "repeatMode (snd (setRepeatMode (Num NaN) example_queue)) = Finite 1"
    by (simp add: fl_small_numerals)
  from fresh frac
    general [of example_queue "SetRepeatMode (Num (Finite (3 / 2)))" example_store "[]" NaN
      "Finite 0"]
  have broken: "\<not> mode_and_time_ok
      (queue_after (SetRepeatMode (Num (Finite (3 / 2)))) example_store example_queue)"
    by blast
  from fresh time
    general [of example_queue "Seek (Finite (7 / 2))" example_store "[]" NaN "Finite 0"]
  have sought: "mode_and_time_ok (queue_after (Seek (Finite (7 / 2))) example_store example_queue)"
    by blast
  have args: "list_all in_model
      [SetRepeatMode Null, Seek (Finite 12), SetFilter (Some ''echo''),
       SetRepeatMode (Num (Finite 1))]"
    by (simp add: js_le_def js_eq_def)
  from args general [of example_queue Pause example_store
      "[SetRepeatMode Null, Seek (Finite 12), SetFilter (Some ''echo''),
        SetRepeatMode (Num (Finite 1))]" NaN "Finite 0"]
  have trace: "mode_and_time_ok
     (snd (run [SetRepeatMode Null, Seek (Finite 12), SetFilter (Some ''echo''),
                SetRepeatMode (Num (Finite 1))]
            (example_store, example_queue)))"
    unfolding example_queue_def by blast
  from fresh arg set_mode stored same cycled broken sought trace show ?thesis
    by blast
qed

text \<open>
  The claim as the spec words it has the invariant kept for any accepted argument. On a new
  queue \<^verbatim>\<open>setRepeatMode(5)\<close> goes through and leaves the repeat mode 5, and \<^verbatim>\<open>seek(-1)\<close> goes
  through and leaves the begin time \<open>-1\<close>.
\<close>

theorem mode_and_time_counterexample:
  "mode_and_time_ok example_queue \<and>
   fst (setRepeatMode (Num (Finite 5)) example_queue) = Inr (Finite 5) \<and>
   repeatMode (snd (setRepeatMode (Num (Finite 5)) example_queue)) = Finite 5 \<and>
   \<not> mode_and_time_ok (snd (setRepeatMode (Num (Finite 5)) example_queue)) \<and>
   fst (seek (Finite (- 1)) example_queue) = Inr () \<and>
   beginTime (snd (seek (Finite (- 1)) example_queue)) = Finite (- 1) \<and>
   \<not> mode_and_time_ok (snd (seek (Finite (- 1)) example_queue))"
  by (simp add: mode_and_time_ok_def setRepeatMode_number seek_def example_queue_def Queue_def
      record_call_def js_le_def js_eq_def)

subsection \<open>The task serializer\<close>

lemma start_next_pending [simp]: "pending (start_next s) = pending s"
  by (simp add: pending_def start_next_def split: list.splits)

lemma start_next_one_running:
  "length (in_flight s) \<le> 1 \<Longrightarrow> one_running (start_next s)"
  by (auto simp add: one_running_def start_next_def split: list.splits)

lemma step_one_running:
  assumes "one_running s"
  shows "one_running (step e s)"
proof (cases e)
  case (Submit u)
  from assms have "length (in_flight (s\<lparr>waiting := waiting s @ [u]\<rparr>)) \<le> 1"
    by (simp add: one_running_def)
  then have "one_running (start_next (s\<lparr>waiting := waiting s @ [u]\<rparr>))"
    by (rule start_next_one_running)
  with Submit show ?thesis
    by (simp add: enqueue_def)
next
  case (Completes u c)
  show ?thesis
  proof (cases "u \<in> set (in_flight s)")
    case True
    with assms have "length (in_flight (s\<lparr>in_flight := remove1 u (in_flight s),
        finished := finished s @ [(u, c)]\<rparr>)) \<le> 1"
      by (simp add: one_running_def length_remove1)
    then have "one_running (start_next (s\<lparr>in_flight := remove1 u (in_flight s),
        finished := finished s @ [(u, c)]\<rparr>))"
      by (rule start_next_one_running)
    with True Completes show ?thesis
      by (simp add: complete_def)
  next
    case False
    with assms Completes show ?thesis
      by (simp add: complete_def)
  qed
qed

lemma step_pending:
  assumes "one_running s"
  shows "pending (step e s) = pending s @ submitted [e]"
proof (cases e)
  case (Submit u)
  then show ?thesis
    by (simp add: enqueue_def) (simp add: pending_def)
next
  case (Completes u c)
  show ?thesis
  proof (cases "u \<in> set (in_flight s)")
    case True
    with assms have "in_flight s = [u]"
      by (cases "in_flight s") (auto simp add: one_running_def)
    with True Completes show ?thesis
      by (simp add: complete_def) (simp add: pending_def)
  next
    case False
    with Completes show ?thesis
      by (simp add: complete_def)
  qed
qed

lemma submitted_append: "submitted (es @ fs) = submitted es @ submitted fs"
  by (induction es rule: submitted.induct) simp_all

lemma fold_step_invariant:
  "one_running s \<Longrightarrow>
   one_running (fold step es s) \<and> pending (fold step es s) = pending s @ submitted es"
proof (induction es arbitrary: s)
  case Nil
  then show ?case by simp
next
  case (Cons e es)
  from Cons.prems have "one_running (step e s)"
    by (rule step_one_running)
  then have "one_running (fold step es (step e s)) \<and>
      pending (fold step es (step e s)) = pending (step e s) @ submitted es"
    by (rule Cons.IH)
  moreover have "pending (step e s) @ submitted es = pending s @ submitted (e # es)"
    using step_pending [OF Cons.prems, of e] submitted_append [of "[e]" es] by simp
  ultimately show ?case by simp
qed

text \<open>
  Claim C3, on the serializer as the spec describes it. After any interleaving of
  submissions and completions at most one unit is in flight; the units completed so far,
  then the running one, then the waiting ones are exactly the units submitted, in the order
  of submission, so the completions happen in that order; a unit waits only while another
  one runs; and when the running unit fails, the oldest waiting unit runs next.
\<close>

theorem serializer_one_at_a_time_in_order:
  "length (in_flight (after_events es)) \<le> 1 \<and>
   map fst (finished (after_events es)) @ in_flight (after_events es) @
     waiting (after_events es) = submitted es \<and>
   (waiting (after_events es) \<noteq> [] \<longrightarrow> in_flight (after_events es) \<noteq> []) \<and>
   (in_flight s = [u] \<and> waiting s = v # vs \<longrightarrow>
      in_flight (complete u Failed s) = [v] \<and>
      waiting (complete u Failed s) = vs \<and>
      finished (complete u Failed s) = finished s @ [(u, Failed)])"
proof -
  have "one_running (idle :: 'a serializer)"
    by (simp add: one_running_def idle_def)
  then have "one_running (after_events es) \<and>
      pending (after_events es) = pending (idle :: 'a serializer) @ submitted es"
    unfolding after_events_def by (rule fold_step_invariant)
  then have "length (in_flight (after_events es)) \<le> 1"
    and "(waiting (after_events es) \<noteq> [] \<longrightarrow> in_flight (after_events es) \<noteq> [])"
    and "map fst (finished (after_events es)) @ in_flight (after_events es) @
      waiting (after_events es) = submitted es"
    by (auto simp add: one_running_def pending_def idle_def)
  moreover have "in_flight s = [u] \<and> waiting s = v # vs \<longrightarrow>
      in_flight (complete u Failed s) = [v] \<and>
      waiting (complete u Failed s) = vs \<and>
      finished (complete u Failed s) = finished s @ [(u, Failed)]"
    by (simp add: complete_def start_next_def)
  ultimately show ?thesis by blast
qed

theorem serializer_one_at_a_time_in_order_witness:
  "submitted example_events = [1, 2, 3] \<and>
   finished (after_events example_events) = [(1, Failed), (2, Succeeded)] \<and>
   in_flight (after_events example_events) = [3] \<and>
   waiting (after_events example_events) = [] \<and>
   length (in_flight (after_events example_events)) \<le> 1 \<and>
   map fst (finished (after_events example_events)) @ in_flight (after_events example_events) @
     waiting (after_events example_events) = submitted example_events"
proof -
  have sub: "submitted example_events = [1, 2, 3]"
    by (simp add: example_events_def)
  have state: "after_events example_events =
      \<lparr> waiting = [], in_flight = [3], finished = [(1, Failed), (2, Succeeded)] \<rparr>"
    by (simp add: example_events_def after_events_def idle_def enqueue_def complete_def
        start_next_def)
  from serializer_one_at_a_time_in_order [of example_events] sub state show ?thesis
    by simp
qed

end
